theory Spec2Isabelle
  imports Complex_Main
begin

section \<open>Conventions of the embedding\<close>

text \<open>
  The components are Svelte single-file components. Each component instance is a record
  of its \<open>let\<close> variables; an event handler is a function from the record to the
  updated record. A JavaScript \<open>number\<close> that holds an amount of currency is an exact
  rational (\<open>rat\<close>): rounding of IEEE doubles, \<open>NaN\<close> and the infinities are not
  represented. Counters, timer handles and clock readings are natural numbers. A value
  that may be \<open>null\<close> is an \<open>option\<close>. Strings are lists of characters; the
  characters the code inspects are all ASCII.
\<close>

subsection \<open>JavaScript helpers\<close>

text \<open>Truthiness of a \<open>string | null\<close>: \<open>null\<close> and the empty string are falsy.\<close>

definition truthy_str :: "string option \<Rightarrow> bool" where
  "truthy_str v = (case v of None \<Rightarrow> False | Some s \<Rightarrow> s \<noteq> [])"

text \<open>Truthiness of a \<open>number | null\<close> that holds a timer handle: \<open>null\<close> and \<open>0\<close> are falsy.\<close>

definition truthy_handle :: "nat option \<Rightarrow> bool" where
  "truthy_handle v = (case v of None \<Rightarrow> False | Some h \<Rightarrow> h \<noteq> 0)"

text \<open>\<open>String.prototype.toLowerCase\<close> on ASCII letters.\<close>

definition toLowerCase_char :: "char \<Rightarrow> char" where
  "toLowerCase_char c =
     (let n = (of_char c :: nat) in if 65 \<le> n \<and> n \<le> 90 then char_of (n + 32) else c)"

definition toLowerCase :: "string \<Rightarrow> string" where
  "toLowerCase s = map toLowerCase_char s"

text \<open>\<open>String.prototype.trim\<close>: the ASCII white space (tab, line feed, vertical tab,
  form feed, carriage return, space) is dropped at both ends.\<close>

definition isWhiteSpace :: "char \<Rightarrow> bool" where
  "isWhiteSpace c = (let n = (of_char c :: nat) in (9 \<le> n \<and> n \<le> 13) \<or> n = 32)"

definition trim :: "string \<Rightarrow> string" where
  "trim s = rev (dropWhile isWhiteSpace (rev (dropWhile isWhiteSpace s)))"

section \<open>Referral discount (VerusIdRegistrationModal, IdentityInfoStep)\<close>



section \<open>FundingModal: automatic funding\<close>

datatype funding_command =
    Get_wallet_info
  | Fund_private_address_for_messages_cmd string string

datatype funding_event = Close bool

text \<open>
  The instance: the props, the component's variables, then how many calls of each of the
  two backend commands are pending, the commands issued and the \<open>close\<close> events
  dispatched.
\<close>

record funding_modal =
  fm_show :: bool
  fm_privateAddress :: string
  fm_currencySymbol :: string
  fm_walletBalance :: "rat option"
  fm_isCheckingBalance :: bool
  fm_balanceError :: "string option"
  fm_isFunding :: bool
  fm_fundingError :: "string option"
  fm_copySuccess :: bool
  fm_copyTimeout :: "nat option"
  fm_checksInFlight :: nat
  fm_fundingsInFlight :: nat
  fm_invoked :: "funding_command list"
  fm_dispatched :: "funding_event list"

definition UTXO_AMOUNT :: rat where
  "UTXO_AMOUNT = 1 / 10000"

definition UTXO_COUNT :: rat where
  "UTXO_COUNT = 1"

definition TOTAL_FUNDING_AMOUNT :: rat where
  "TOTAL_FUNDING_AMOUNT = UTXO_AMOUNT * UTXO_COUNT"

definition estimatedFees :: rat where
  "estimatedFees = 1 / 10000"

definition totalRequired :: rat where
  "totalRequired = TOTAL_FUNDING_AMOUNT + estimatedFees"

text \<open>
  \<^verbatim>\<open>$: canAffordFunding = walletBalance !== null && walletBalance >= totalRequired;\<close>
  A reactive declaration is recomputed in the flush that follows every handler, so it is
  read as a function of the current variables.
\<close>

definition canAffordFunding :: "funding_modal \<Rightarrow> bool" where
  "canAffordFunding s =
     (case fm_walletBalance s of None \<Rightarrow> False | Some b \<Rightarrow> b \<ge> totalRequired)"

definition resetState :: "funding_modal \<Rightarrow> funding_modal" where
  "resetState s =
     s\<lparr> fm_isFunding := False,
        fm_fundingError := None,
        fm_copySuccess := False,
        fm_copyTimeout := None \<rparr>"

text \<open>\<open>checkWalletBalance\<close> up to its \<open>await\<close>, and its two continuations.\<close>

definition checkWalletBalance :: "funding_modal \<Rightarrow> funding_modal" where
  "checkWalletBalance s =
     s\<lparr> fm_isCheckingBalance := True,
        fm_balanceError := None,
        fm_invoked := fm_invoked s @ [Get_wallet_info],
        fm_checksInFlight := Suc (fm_checksInFlight s) \<rparr>"

definition checkResolved :: "rat \<Rightarrow> funding_modal \<Rightarrow> funding_modal" where
  "checkResolved balance s =
     s\<lparr> fm_walletBalance := Some balance,
        fm_isCheckingBalance := False,
        fm_checksInFlight := fm_checksInFlight s - 1 \<rparr>"

definition checkRejected :: "funding_modal \<Rightarrow> funding_modal" where
  "checkRejected s =
     s\<lparr> fm_balanceError := Some ''Failed to check wallet balance'',
        fm_walletBalance := None,
        fm_isCheckingBalance := False,
        fm_checksInFlight := fm_checksInFlight s - 1 \<rparr>"

text \<open>
  The prop \<open>show\<close> is set from outside, by the parent or through the binding
  \<^verbatim>\<open><Modal bind:show ...>\<close>. A new value invalidates it, and the reactive block
  \<^verbatim>\<open>$: if (show) { checkWalletBalance(); resetState(); }\<close> runs; the same value
  invalidates nothing.
\<close>

definition setShow :: "bool \<Rightarrow> funding_modal \<Rightarrow> funding_modal" where
  "setShow b s =
     (if fm_show s = b then s
      else if b then resetState (checkWalletBalance (s\<lparr> fm_show := True \<rparr>))
      else s\<lparr> fm_show := False \<rparr>)"

definition handleClose :: "funding_modal \<Rightarrow> funding_modal" where
  "handleClose s = s\<lparr> fm_dispatched := fm_dispatched s @ [Close False] \<rparr>"

text \<open>
  \<open>handleAutoFunding\<close> up to its \<open>await\<close>: the guard, the two assignments and the
  call of the backend command.
\<close>

definition handleAutoFunding :: "funding_modal \<Rightarrow> funding_modal" where
  "handleAutoFunding s =
     (if \<not> canAffordFunding s \<or> fm_privateAddress s = [] \<or> fm_isFunding s then s
      else s\<lparr> fm_isFunding := True,
              fm_fundingError := None,
              fm_invoked := fm_invoked s @
                [Fund_private_address_for_messages_cmd (fm_privateAddress s) (fm_currencySymbol s)],
              fm_fundingsInFlight := Suc (fm_fundingsInFlight s) \<rparr>)"

text \<open>The two continuations of the \<open>await\<close>: the command resolved with a transaction id,
  or it rejected (\<open>Some msg\<close> when the payload is a string, \<open>None\<close> otherwise).\<close>

definition fundingResolved :: "string \<Rightarrow> funding_modal \<Rightarrow> funding_modal" where
  "fundingResolved txid s =
     s\<lparr> fm_dispatched := fm_dispatched s @ [Close True],
        fm_fundingsInFlight := fm_fundingsInFlight s - 1 \<rparr>"

definition fundingRejected :: "string option \<Rightarrow> funding_modal \<Rightarrow> funding_modal" where
  "fundingRejected err s =
     s\<lparr> fm_fundingError :=
           Some (case err of Some msg \<Rightarrow> msg | None \<Rightarrow> ''Funding failed. Please try again.''),
        fm_isFunding := False,
        fm_fundingsInFlight := fm_fundingsInFlight s - 1 \<rparr>"

text \<open>
  The preconditions of the automatic funding as the code tests them: the checked balance
  is at least 0.0002, the private address is not empty, the flag \<open>isFunding\<close> is
  clear.
\<close>

definition fundingPreconditions :: "funding_modal \<Rightarrow> bool" where
  "fundingPreconditions s =
     ((case fm_walletBalance s of None \<Rightarrow> False | Some b \<Rightarrow> 2 / 10000 \<le> b) \<and>
      fm_privateAddress s \<noteq> [] \<and> \<not> fm_isFunding s)"

text \<open>
  The modal for a private address: created with \<open>show\<close> false, its default, so that
  neither the reactive block nor \<open>onMount\<close> does anything, and then shown.
\<close>

definition funding_modal_created :: "string \<Rightarrow> funding_modal" where
  "funding_modal_created address =
     setShow True \<lparr> fm_show = False, fm_privateAddress = address, fm_currencySymbol = ''VRSC'',
             fm_walletBalance = None, fm_isCheckingBalance = False, fm_balanceError = None,
             fm_isFunding = False, fm_fundingError = None, fm_copySuccess = False,
             fm_copyTimeout = None, fm_checksInFlight = 0, fm_fundingsInFlight = 0,
             fm_invoked = [], fm_dispatched = [] \<rparr>"

text \<open>The modal with its balance checked, and with a funding call pending.\<close>

definition funding_modal_checked :: "rat \<Rightarrow> string \<Rightarrow> funding_modal" where
  "funding_modal_checked balance address = checkResolved balance (funding_modal_created address)"

definition funding_modal_funding :: funding_modal where
  "funding_modal_funding = handleAutoFunding (funding_modal_checked (3 / 10000) ''zs1abc'')"

text \<open>
  The modal closed while that call is pending, hidden, shown again, its balance checked
  again.
\<close>

definition funding_modal_closed :: funding_modal where
  "funding_modal_closed = setShow False (handleClose funding_modal_funding)"

definition funding_modal_reopened :: funding_modal where
  "funding_modal_reopened = checkResolved (3 / 10000) (setShow True funding_modal_closed)"

section \<open>IdentityInfoStep: the name input\<close>


datatype name_availability = Unchecked | Checking | Available | Taken | AvailabilityError

datatype referral_status = RefUnchecked | RefChecking | RefValid | RefInvalid | RefError















section \<open>The host: interval timers and rejected calls\<close>

text \<open>
  \<open>setInterval\<close> returns a handle the host never gave before (handles count up from
  1, so a handle is truthy) and keeps the interval live until \<open>clearInterval\<close> is
  called with its handle; clearing a handle that is not live does nothing. A live
  interval is a pair of its handle and the callback it runs.
\<close>

datatype timer_kind = PollLoop | ElapsedClock

definition setInterval_live :: "nat \<Rightarrow> timer_kind \<Rightarrow> (nat \<times> timer_kind) list \<Rightarrow> (nat \<times> timer_kind) list" where
  "setInterval_live h k live = live @ [(h, k)]"

definition clearInterval_live :: "nat \<Rightarrow> (nat \<times> timer_kind) list \<Rightarrow> (nat \<times> timer_kind) list" where
  "clearInterval_live h live = filter (\<lambda>t. fst t \<noteq> h) live"

definition timers_of_kind :: "timer_kind \<Rightarrow> (nat \<times> timer_kind) list \<Rightarrow> nat list" where
  "timers_of_kind k live = map fst (filter (\<lambda>t. snd t = k) live)"

text \<open>
  The payload of a rejected \<open>invoke\<close>: a string, or an object with a \<open>message\<close>
  field (given with the text \<open>String(e)\<close> renders it to). Both components read the
  message as \<^verbatim>\<open>e.message || e\<close>.
\<close>

datatype rejection = RejectString string | RejectObject string string

fun raisedMessage :: "rejection \<Rightarrow> string" where
  "raisedMessage (RejectString s) = s"
| "raisedMessage (RejectObject m r) = m"

fun messageOrString :: "rejection \<Rightarrow> string" where
  "messageOrString (RejectString s) = s"
| "messageOrString (RejectObject m r) = (if m \<noteq> [] then m else r)"

section \<open>CurrencyConversionStep: the conversion tracker\<close>

record AddressWithBalance =
  awb_address :: string
  awb_hasEnoughBalance :: bool
  awb_availableAmount :: rat

datatype conv_command =
    Get_address_currency_balance string string
  | Send_currency_conversion string string string string rat

datatype conv_event = Completed string rat

text \<open>
  The instance: the component's variables, then the host (clock in milliseconds, next
  handle, live intervals), then the calls that await the backend (how many runs of
  \<open>initialize\<close> and of \<open>startConversion\<close> are suspended at which \<open>await\<close>, how many
  poll calls are in flight), then the backend commands issued by \<open>startConversion\<close>
  and by the poll callback and the \<open>completed\<close> events dispatched. (The
  \<open>statusChange\<close> events, which a reactive block dispatches with
  \<open>converting || conversionStarted\<close>, are not recorded.)
\<close>

record conversion_step =
  cv_sourceCurrency :: string
  cv_targetCurrency :: string
  cv_requiredAmount :: "rat option"
  cv_addresses :: "AddressWithBalance list"
  cv_selectedSourceAddress :: string
  cv_selectedDestinationAddress :: string
  cv_loading :: bool
  cv_error :: "string option"
  cv_conversionRate :: "rat option"
  cv_totalSourceCurrencyBalance :: rat
  cv_sourceAmountToSend :: rat
  cv_amountWithBuffer :: rat
  cv_targetAmountNeeded :: rat
  cv_converting :: bool
  cv_conversionStarted :: bool
  cv_conversionTxid :: "string option"
  cv_conversionError :: "string option"
  cv_pollingInterval :: "nat option"
  cv_baselineBalance :: rat
  cv_conversionCompleted :: bool
  cv_actualAmountReceived :: rat
  cv_conversionStartTime :: nat
  cv_elapsedSeconds :: nat
  cv_timerInterval :: "nat option"
  cv_now :: nat
  cv_nextTimerId :: nat
  cv_liveTimers :: "(nat \<times> timer_kind) list"
  cv_initsInFlight :: nat
  cv_startsAwaitingBaseline :: nat
  cv_startsAwaitingSend :: nat
  cv_pollsInFlight :: nat
  cv_invoked :: "conv_command list"
  cv_dispatched :: "conv_event list"

text \<open>\<^verbatim>\<open>Math.round(amount * 100000000) / 100000000\<close>; \<open>Math.round\<close> rounds half up.\<close>

definition roundToSatoshis :: "rat \<Rightarrow> rat" where
  "roundToSatoshis amount = of_int \<lfloor>amount * 100000000 + 1 / 2\<rfloor> / 100000000"

definition hasValidSourceAddress :: "conversion_step \<Rightarrow> bool" where
  "hasValidSourceAddress s =
     (if cv_selectedSourceAddress s = ''*''
      then cv_totalSourceCurrencyBalance s \<ge> cv_amountWithBuffer s
      else list_ex (\<lambda>addr. awb_address addr = cv_selectedSourceAddress s \<and> awb_hasEnoughBalance addr)
             (cv_addresses s))"

text \<open>
  \<^verbatim>\<open>$: internalCanProceed = !converting && !conversionStarted && !!selectedSourceAddress &&
     !!selectedDestinationAddress && !!conversionRate && hasValidSourceAddress && amountWithBuffer > 0;\<close>
  A reactive declaration is recomputed in the flush that follows every handler, before
  the next handler runs, so it is read here as a function of the current variables.
\<close>

definition internalCanProceed :: "conversion_step \<Rightarrow> bool" where
  "internalCanProceed s =
     (\<not> cv_converting s \<and> \<not> cv_conversionStarted s \<and>
      cv_selectedSourceAddress s \<noteq> [] \<and> cv_selectedDestinationAddress s \<noteq> [] \<and>
      (case cv_conversionRate s of None \<Rightarrow> False | Some r \<Rightarrow> r \<noteq> 0) \<and>
      hasValidSourceAddress s \<and> cv_amountWithBuffer s > 0)"

subsection \<open>Timers\<close>

text \<open>\<^verbatim>\<open>if (handle) { clearInterval(handle); }\<close> on the live intervals.\<close>

definition clearIfSet :: "nat option \<Rightarrow> (nat \<times> timer_kind) list \<Rightarrow> (nat \<times> timer_kind) list" where
  "clearIfSet handle live =
     (case handle of
        None \<Rightarrow> live
      | Some h \<Rightarrow> if h \<noteq> 0 then clearInterval_live h live else live)"

definition startTimer :: "conversion_step \<Rightarrow> conversion_step" where
  "startTimer s =
     (let live = clearIfSet (cv_timerInterval s) (cv_liveTimers s);
          h = cv_nextTimerId s
      in s\<lparr> cv_conversionStartTime := cv_now s,
            cv_elapsedSeconds := 0,
            cv_timerInterval := Some h,
            cv_nextTimerId := Suc h,
            cv_liveTimers := setInterval_live h ElapsedClock live \<rparr>)"

definition stopTimer :: "conversion_step \<Rightarrow> conversion_step" where
  "stopTimer s =
     (if truthy_handle (cv_timerInterval s)
      then s\<lparr> cv_liveTimers := clearIfSet (cv_timerInterval s) (cv_liveTimers s),
              cv_timerInterval := None \<rparr>
      else s)"

text \<open>\<open>startPolling\<close> creates the poll interval without clearing an earlier one.\<close>

definition startPolling :: "conversion_step \<Rightarrow> conversion_step" where
  "startPolling s =
     (let h = cv_nextTimerId s
      in s\<lparr> cv_pollingInterval := Some h,
            cv_nextTimerId := Suc h,
            cv_liveTimers := setInterval_live h PollLoop (cv_liveTimers s) \<rparr>)"

text \<open>The callback of the elapsed-time interval.\<close>

definition clockTick :: "conversion_step \<Rightarrow> conversion_step" where
  "clockTick s = s\<lparr> cv_elapsedSeconds := (cv_now s - cv_conversionStartTime s) div 1000 \<rparr>"

subsection \<open>Completion and the poll callback\<close>

definition completeConversion :: "rat \<Rightarrow> conversion_step \<Rightarrow> conversion_step" where
  "completeConversion newFundsReceived s =
     (let s1 = (if truthy_handle (cv_pollingInterval s)
                then s\<lparr> cv_liveTimers := clearIfSet (cv_pollingInterval s) (cv_liveTimers s),
                        cv_pollingInterval := None \<rparr>
                else s);
          s2 = stopTimer s1
      in s2\<lparr> cv_converting := False,
             cv_conversionStarted := False,
             cv_conversionCompleted := True,
             cv_actualAmountReceived := newFundsReceived,
             cv_dispatched := cv_dispatched s2 @
               [Completed (case cv_conversionTxid s2 of None \<Rightarrow> [] | Some t \<Rightarrow> t)
                  newFundsReceived] \<rparr>)"

text \<open>
  The poll callback up to its \<open>await\<close> (the balance of the destination address is
  requested), and its two continuations: the call resolved with the current balance,
  or it rejected, which the callback swallows.
\<close>

definition pollTick :: "conversion_step \<Rightarrow> conversion_step" where
  "pollTick s =
     s\<lparr> cv_invoked := cv_invoked s @
          [Get_address_currency_balance (cv_selectedDestinationAddress s) (cv_targetCurrency s)],
        cv_pollsInFlight := Suc (cv_pollsInFlight s) \<rparr>"

definition pollResolved :: "rat \<Rightarrow> conversion_step \<Rightarrow> conversion_step" where
  "pollResolved currentBalance s =
     (let s1 = s\<lparr> cv_pollsInFlight := cv_pollsInFlight s - 1 \<rparr>
      in if currentBalance > cv_baselineBalance s1
         then completeConversion (currentBalance - cv_baselineBalance s1) s1
         else s1)"

definition pollRejected :: "conversion_step \<Rightarrow> conversion_step" where
  "pollRejected s = s\<lparr> cv_pollsInFlight := cv_pollsInFlight s - 1 \<rparr>"

subsection \<open>Loading the wallet data\<close>

text \<open>
  \<open>initialize\<close> up to its first \<open>await\<close>. What the awaited part
  (\<open>estimateTargetAmount\<close>, then \<open>fetchAddressesAndBalances\<close>) does is given by
  what the backend answered: the estimate of the target amount (0 when its call failed)
  and either the addresses that hold the source currency, already filtered and sorted,
  with the conversion rate (\<open>None\<close> when its call failed), or the payload with which
  \<open>get_wallet_addresses\<close> rejected. The early returns of the two functions are kept:
  no estimate without an amount and both currencies, no wallet data for an amount of 0,
  no rate without both currencies.
\<close>

definition initialize :: "conversion_step \<Rightarrow> conversion_step" where
  "initialize s =
     (let sourceAmount = roundToSatoshis (case cv_requiredAmount s of None \<Rightarrow> 0 | Some a \<Rightarrow> a)
      in s\<lparr> cv_loading := True,
            cv_error := None,
            cv_sourceAmountToSend := sourceAmount,
            cv_amountWithBuffer := roundToSatoshis (sourceAmount * (11 / 10)),
            cv_initsInFlight := Suc (cv_initsInFlight s) \<rparr>)"

datatype wallet_answer =
    WalletLoaded "AddressWithBalance list" "rat option"
  | WalletFailed rejection

definition initializeSettled :: "rat \<Rightarrow> wallet_answer \<Rightarrow> conversion_step \<Rightarrow> conversion_step" where
  "initializeSettled target answer s =
     (let noCurrencies = (cv_sourceCurrency s = [] \<or> cv_targetCurrency s = []);
          s1 = s\<lparr> cv_targetAmountNeeded :=
                    (if cv_sourceAmountToSend s = 0 \<or> noCurrencies
                     then cv_targetAmountNeeded s else target),
                  cv_initsInFlight := cv_initsInFlight s - 1 \<rparr>;
          s2 = (if cv_amountWithBuffer s1 = 0 then s1
                else case answer of
                  WalletLoaded addrs rate \<Rightarrow>
                    s1\<lparr> cv_addresses := addrs,
                        cv_totalSourceCurrencyBalance := sum_list (map awb_availableAmount addrs),
                        cv_selectedDestinationAddress :=
                          (case addrs of [] \<Rightarrow> cv_selectedDestinationAddress s1
                           | a # _ \<Rightarrow> awb_address a),
                        cv_conversionRate :=
                          (if noCurrencies then cv_conversionRate s1 else rate) \<rparr>
                | WalletFailed e \<Rightarrow>
                    s1\<lparr> cv_error := Some (''Failed to load wallet data: '' @ messageOrString e) \<rparr>)
      in s2\<lparr> cv_loading := False \<rparr>)"

subsection \<open>Starting, retrying, tearing down\<close>

text \<open>
  \<open>startConversion\<close> has two \<open>await\<close>s, so it is four functions: the part up to
  the request of the baseline balance, the part from there to the request of the
  conversion, the part after the conversion was accepted, and the \<open>catch\<close> block,
  reached from either \<open>await\<close>.
\<close>

definition startConversion :: "conversion_step \<Rightarrow> conversion_step" where
  "startConversion s =
     (if \<not> internalCanProceed s then s
      else s\<lparr> cv_converting := True,
              cv_conversionError := None,
              cv_invoked := cv_invoked s @
                [Get_address_currency_balance (cv_selectedDestinationAddress s) (cv_targetCurrency s)],
              cv_startsAwaitingBaseline := Suc (cv_startsAwaitingBaseline s) \<rparr>)"

definition startConversion_baseline :: "rat \<Rightarrow> conversion_step \<Rightarrow> conversion_step" where
  "startConversion_baseline balance s =
     s\<lparr> cv_baselineBalance := balance,
        cv_invoked := cv_invoked s @
          [Send_currency_conversion (cv_selectedSourceAddress s) (cv_selectedDestinationAddress s)
             (cv_sourceCurrency s) (cv_targetCurrency s) (cv_amountWithBuffer s)],
        cv_startsAwaitingBaseline := cv_startsAwaitingBaseline s - 1,
        cv_startsAwaitingSend := Suc (cv_startsAwaitingSend s) \<rparr>"

definition startConversion_sent :: "string \<Rightarrow> conversion_step \<Rightarrow> conversion_step" where
  "startConversion_sent txid s =
     startPolling (startTimer
       (s\<lparr> cv_conversionTxid := Some txid,
           cv_conversionStarted := True,
           cv_startsAwaitingSend := cv_startsAwaitingSend s - 1 \<rparr>))"

definition startConversion_catch :: "rejection \<Rightarrow> conversion_step \<Rightarrow> conversion_step" where
  "startConversion_catch err s =
     s\<lparr> cv_conversionError := Some (''Failed to start conversion: '' @ messageOrString err),
        cv_converting := False \<rparr>"

definition retryConversion :: "conversion_step \<Rightarrow> conversion_step" where
  "retryConversion s =
     (let s1 = s\<lparr> cv_conversionError := None,
                  cv_conversionTxid := None,
                  cv_conversionStarted := False,
                  cv_converting := False,
                  cv_conversionCompleted := False,
                  cv_actualAmountReceived := 0 \<rparr>;
          s2 = (if truthy_handle (cv_pollingInterval s1)
                then s1\<lparr> cv_liveTimers := clearIfSet (cv_pollingInterval s1) (cv_liveTimers s1),
                         cv_pollingInterval := None \<rparr>
                else s1)
      in initialize (stopTimer s2))"

definition onDestroy :: "conversion_step \<Rightarrow> conversion_step" where
  "onDestroy s =
     (let s1 = s\<lparr> cv_liveTimers := clearIfSet (cv_pollingInterval s) (cv_liveTimers s) \<rparr>
      in s1\<lparr> cv_liveTimers := clearIfSet (cv_timerInterval s1) (cv_liveTimers s1) \<rparr>)"

subsection \<open>What the user can do\<close>

text \<open>
  The template shows, in this order: the skeleton while \<open>loading\<close>; the load error
  with a Retry button when \<open>error\<close> is set; the progress display while
  \<open>conversionStarted || converting\<close>; the success message when
  \<open>conversionCompleted\<close>; otherwise the setup form, with a Try Again button when
  \<open>conversionError\<close> is set. Both buttons call \<open>retryConversion\<close>. The
  primary button of the modal reads Start Conversion and calls \<open>startConversion\<close>,
  which guards itself, until the modal has received a \<open>completed\<close> event; from then
  on it reads Next and moves the wizard on, which destroys the step.
\<close>

definition retryVisible :: "conversion_step \<Rightarrow> bool" where
  "retryVisible s =
     (\<not> cv_loading s \<and>
      (truthy_str (cv_error s) \<or>
       (\<not> (cv_conversionStarted s \<or> cv_converting s) \<and> \<not> cv_conversionCompleted s \<and>
        truthy_str (cv_conversionError s))))"

definition setupVisible :: "conversion_step \<Rightarrow> bool" where
  "setupVisible s =
     (\<not> cv_loading s \<and> \<not> truthy_str (cv_error s) \<and>
      \<not> (cv_conversionStarted s \<or> cv_converting s) \<and> \<not> cv_conversionCompleted s)"

definition handleSourceAddressChange :: "string \<Rightarrow> conversion_step \<Rightarrow> conversion_step" where
  "handleSourceAddressChange newAddress s =
     (let s1 = s\<lparr> cv_selectedSourceAddress := newAddress \<rparr>
      in if cv_selectedSourceAddress s1 \<noteq> ''*''
         then s1\<lparr> cv_selectedDestinationAddress := cv_selectedSourceAddress s1 \<rparr>
         else case cv_addresses s1 of
                [] \<Rightarrow> s1
              | a # _ \<Rightarrow> s1\<lparr> cv_selectedDestinationAddress := awb_address a \<rparr>)"

definition handleDestinationAddressChange :: "string \<Rightarrow> conversion_step \<Rightarrow> conversion_step" where
  "handleDestinationAddressChange newAddress s = s\<lparr> cv_selectedDestinationAddress := newAddress \<rparr>"

subsection \<open>The event loop\<close>

text \<open>
  Handlers run one at a time, each to its next \<open>await\<close>, so a run of the component is
  a list of the things that happen to it: the clock advances, the user clicks, a live
  interval fires, a pending call of the backend settles. Something that cannot happen
  in the state (a click on a button that is not shown, an interval that is not live, a
  settlement with no call pending) leaves the state as it is.
\<close>

datatype conv_input =
    Advance nat
  | ClickStart
  | ClickRetry
  | SelectSource string
  | SelectDestination string
  | InitializeSettled rat wallet_answer
  | BaselineResolved rat
  | BaselineRejected rejection
  | SendResolved string
  | SendRejected rejection
  | IntervalFires nat
  | PollResolved rat
  | PollRejected
  | Destroy

fun conv_step :: "conv_input \<Rightarrow> conversion_step \<Rightarrow> conversion_step" where
  "conv_step (Advance ms) s = s\<lparr> cv_now := cv_now s + ms \<rparr>"
| "conv_step ClickStart s = (if cv_dispatched s = [] then startConversion s else onDestroy s)"
| "conv_step ClickRetry s = (if retryVisible s then retryConversion s else s)"
| "conv_step (SelectSource a) s = (if setupVisible s then handleSourceAddressChange a s else s)"
| "conv_step (SelectDestination a) s =
     (if setupVisible s then handleDestinationAddressChange a s else s)"
| "conv_step (InitializeSettled target answer) s =
     (if cv_initsInFlight s > 0 then initializeSettled target answer s else s)"
| "conv_step (BaselineResolved b) s =
     (if cv_startsAwaitingBaseline s > 0 then startConversion_baseline b s else s)"
| "conv_step (BaselineRejected e) s =
     (if cv_startsAwaitingBaseline s > 0
      then startConversion_catch e
             (s\<lparr> cv_startsAwaitingBaseline := cv_startsAwaitingBaseline s - 1 \<rparr>)
      else s)"
| "conv_step (SendResolved txid) s =
     (if cv_startsAwaitingSend s > 0 then startConversion_sent txid s else s)"
| "conv_step (SendRejected e) s =
     (if cv_startsAwaitingSend s > 0
      then startConversion_catch e (s\<lparr> cv_startsAwaitingSend := cv_startsAwaitingSend s - 1 \<rparr>)
      else s)"
| "conv_step (IntervalFires h) s =
     (case map_of (cv_liveTimers s) h of
        None \<Rightarrow> s
      | Some PollLoop \<Rightarrow> pollTick s
      | Some ElapsedClock \<Rightarrow> clockTick s)"
| "conv_step (PollResolved b) s = (if cv_pollsInFlight s > 0 then pollResolved b s else s)"
| "conv_step PollRejected s = (if cv_pollsInFlight s > 0 then pollRejected s else s)"
| "conv_step Destroy s = onDestroy s"

fun conv_run :: "conv_input list \<Rightarrow> conversion_step \<Rightarrow> conversion_step" where
  "conv_run [] s = s"
| "conv_run (e # es) s = conv_run es (conv_step e s)"

text \<open>The instance as the component creates it, and after \<open>onMount\<close> called \<open>initialize\<close>.\<close>

definition conversion_created :: "string \<Rightarrow> string \<Rightarrow> rat option \<Rightarrow> conversion_step" where
  "conversion_created sourceCurrency targetCurrency requiredAmount =
     \<lparr> cv_sourceCurrency = sourceCurrency, cv_targetCurrency = targetCurrency,
       cv_requiredAmount = requiredAmount, cv_addresses = [],
       cv_selectedSourceAddress = ''*'', cv_selectedDestinationAddress = [],
       cv_loading = True, cv_error = None, cv_conversionRate = None,
       cv_totalSourceCurrencyBalance = 0, cv_sourceAmountToSend = 0, cv_amountWithBuffer = 0,
       cv_targetAmountNeeded = 0, cv_converting = False, cv_conversionStarted = False,
       cv_conversionTxid = None, cv_conversionError = None, cv_pollingInterval = None,
       cv_baselineBalance = 0, cv_conversionCompleted = False, cv_actualAmountReceived = 0,
       cv_conversionStartTime = 0, cv_elapsedSeconds = 0, cv_timerInterval = None,
       cv_now = 0, cv_nextTimerId = 1, cv_liveTimers = [],
       cv_initsInFlight = 0, cv_startsAwaitingBaseline = 0, cv_startsAwaitingSend = 0,
       cv_pollsInFlight = 0, cv_invoked = [], cv_dispatched = [] \<rparr>"

definition conversion_mounted :: conversion_step where
  "conversion_mounted = initialize (conversion_created ''DAI'' ''VRSC'' (Some 10))"

text \<open>A wallet with one address that holds enough of the source currency.\<close>

definition wallet_ok :: wallet_answer where
  "wallet_ok =
     WalletLoaded [\<lparr> awb_address = ''RAddr1'', awb_hasEnoughBalance = True,
                     awb_availableAmount = 50 \<rparr>] (Some 2)"

text \<open>A conversion under way: loaded, started, baseline 0 read, conversion accepted.\<close>

definition conversion_polling :: conversion_step where
  "conversion_polling =
     conv_run [InitializeSettled 20 wallet_ok, ClickStart, BaselineResolved 0, SendResolved ''tx1'']
       conversion_mounted"

section \<open>RegisterIdentityStep: commit and finalize\<close>

datatype reg_phase =
  Idle | Committing | WaitingCommit | Finalizing | WaitingFinalize | Done | PhaseError

text \<open>The backend commands the step calls, with the arguments it passes.\<close>

datatype reg_command =
    Get_new_address
  | Register_name_commitment string string string string
  | Wait_for_block_increase nat nat nat
  | Get_new_private_address
  | Register_identity string string string string string
  | Wait_for_identity_ready string nat nat

datatype reg_event = RegCompleted string string | RegError string

text \<open>Where \<open>startFlow\<close> is suspended: the \<open>await\<close> whose call is pending.\<close>

datatype reg_await =
    NotRunning
  | AwaitControlAddress
  | AwaitCommit
  | AwaitCommitBlock
  | AwaitPrivateAddress
  | AwaitRegister
  | AwaitFinalizeBlock
  | AwaitIdentityReady

text \<open>What a backend command resolves with: a string (an address, a transaction id), the
  commitment (transaction id and name reservation), or a boolean.\<close>

datatype backend_value = VString string | VCommit string string | VBool bool

record register_step =
  rg_name :: string
  rg_namespaceName :: string
  rg_referralCode :: string
  rg_isRoot :: bool
  rg_controlAddress :: string
  rg_privateAddress :: string
  rg_commitTxid :: string
  rg_namereservation :: string
  rg_finalizeTxid :: string
  rg_phase :: reg_phase
  rg_errorMsg :: "string option"
  rg_phaseStartTime :: nat
  rg_elapsedSeconds :: nat
  rg_timerInterval :: "nat option"
  rg_now :: nat
  rg_nextTimerId :: nat
  rg_liveTimers :: "(nat \<times> timer_kind) list"
  rg_awaiting :: reg_await
  rg_invoked :: "reg_command list"
  rg_dispatched :: "reg_event list"

definition POLL_INTERVAL_SECS :: nat where
  "POLL_INTERVAL_SECS = 10"

definition TIMEOUT_SECS :: nat where
  "TIMEOUT_SECS = 30 * 60"

definition reg_isRootNamespace :: "string \<Rightarrow> bool" where
  "reg_isRootNamespace namespaceName =
     (let lname = toLowerCase namespaceName in lname = ''vrsc'' \<or> lname = ''vrsctest'')"

text \<open>\<^verbatim>\<open>$: fullId = isRoot ? `${name}@` : `${name}.${selectedNamespace.name}@`;\<close> and
  \<^verbatim>\<open>$: identityNameForFinalize = isRoot ? name : `${name}.${selectedNamespace.name}`;\<close>\<close>

definition fullId :: "register_step \<Rightarrow> string" where
  "fullId s =
     (if rg_isRoot s then rg_name s @ ''@'' else rg_name s @ ''.'' @ rg_namespaceName s @ ''@'')"

definition identityNameForFinalize :: "register_step \<Rightarrow> string" where
  "identityNameForFinalize s =
     (if rg_isRoot s then rg_name s else rg_name s @ ''.'' @ rg_namespaceName s)"

definition reg_startTimer :: "register_step \<Rightarrow> register_step" where
  "reg_startTimer s =
     (let live = clearIfSet (rg_timerInterval s) (rg_liveTimers s);
          h = rg_nextTimerId s
      in s\<lparr> rg_phaseStartTime := rg_now s,
            rg_elapsedSeconds := 0,
            rg_timerInterval := Some h,
            rg_nextTimerId := Suc h,
            rg_liveTimers := setInterval_live h ElapsedClock live \<rparr>)"

definition reg_stopTimer :: "register_step \<Rightarrow> register_step" where
  "reg_stopTimer s =
     (if truthy_handle (rg_timerInterval s)
      then s\<lparr> rg_liveTimers := clearIfSet (rg_timerInterval s) (rg_liveTimers s),
              rg_timerInterval := None \<rparr>
      else s)"

definition reg_clockTick :: "register_step \<Rightarrow> register_step" where
  "reg_clockTick s = s\<lparr> rg_elapsedSeconds := (rg_now s - rg_phaseStartTime s) div 1000 \<rparr>"

text \<open>The \<open>catch\<close> block of \<open>startFlow\<close>, with the text \<^verbatim>\<open>e?.message || String(e)\<close>.\<close>

definition startFlow_catch :: "string \<Rightarrow> register_step \<Rightarrow> register_step" where
  "startFlow_catch msg s =
     (let s1 = reg_stopTimer s
      in s1\<lparr> rg_errorMsg := Some msg,
             rg_phase := PhaseError,
             rg_dispatched := rg_dispatched s1 @
               [RegError (if msg \<noteq> [] then msg else ''Unknown error'')],
             rg_awaiting := NotRunning \<rparr>)"

text \<open>\<open>startFlow\<close> up to its first \<open>await\<close>.\<close>

definition startFlow :: "register_step \<Rightarrow> register_step" where
  "startFlow s =
     s\<lparr> rg_errorMsg := None,
        rg_phase := Committing,
        rg_invoked := rg_invoked s @ [Get_new_address],
        rg_awaiting := AwaitControlAddress \<rparr>"

text \<open>
  \<open>startFlow\<close> from the \<open>await\<close> it is suspended at, when the pending call resolves
  with \<open>v\<close>, up to the next \<open>await\<close>. A value of a type the command does not return
  leaves the state as it is.
\<close>

definition waitForBlock :: reg_command where
  "waitForBlock = Wait_for_block_increase 1 POLL_INTERVAL_SECS TIMEOUT_SECS"

fun startFlow_resume :: "reg_await \<Rightarrow> backend_value \<Rightarrow> register_step \<Rightarrow> register_step" where
  "startFlow_resume AwaitControlAddress (VString address) s =
     (let parentNamespace = (if rg_isRoot s then [] else rg_namespaceName s);
          referral = trim (rg_referralCode s)
      in s\<lparr> rg_controlAddress := address,
            rg_invoked := rg_invoked s @
              [Register_name_commitment (rg_name s) address referral parentNamespace],
            rg_awaiting := AwaitCommit \<rparr>)"
| "startFlow_resume AwaitCommit (VCommit txid namereservation) s =
     (let s1 = reg_startTimer
                 (s\<lparr> rg_commitTxid := txid,
                     rg_namereservation := namereservation,
                     rg_phase := WaitingCommit \<rparr>)
      in s1\<lparr> rg_invoked := rg_invoked s1 @ [waitForBlock],
             rg_awaiting := AwaitCommitBlock \<rparr>)"
| "startFlow_resume AwaitCommitBlock (VBool commitOk) s =
     (let s1 = reg_stopTimer s
      in if \<not> commitOk then startFlow_catch ''Commit transaction not confirmed in time.'' s1
         else s1\<lparr> rg_phase := Finalizing,
                  rg_invoked := rg_invoked s1 @ [Get_new_private_address],
                  rg_awaiting := AwaitPrivateAddress \<rparr>)"
| "startFlow_resume AwaitPrivateAddress (VString address) s =
     s\<lparr> rg_privateAddress := address,
        rg_invoked := rg_invoked s @
          [Register_identity (rg_commitTxid s) (rg_namereservation s) (identityNameForFinalize s)
             (rg_controlAddress s) address],
        rg_awaiting := AwaitRegister \<rparr>"
| "startFlow_resume AwaitRegister (VString txid) s =
     (let s1 = reg_startTimer (s\<lparr> rg_finalizeTxid := txid, rg_phase := WaitingFinalize \<rparr>)
      in s1\<lparr> rg_invoked := rg_invoked s1 @ [waitForBlock],
             rg_awaiting := AwaitFinalizeBlock \<rparr>)"
| "startFlow_resume AwaitFinalizeBlock (VBool finOk) s =
     (let s1 = reg_stopTimer s
      in if \<not> finOk then startFlow_catch ''Finalize transaction not confirmed in time.'' s1
         else s1\<lparr> rg_invoked := rg_invoked s1 @
                    [Wait_for_identity_ready (fullId s1) POLL_INTERVAL_SECS TIMEOUT_SECS],
                  rg_awaiting := AwaitIdentityReady \<rparr>)"
| "startFlow_resume AwaitIdentityReady (VBool identityReady) s =
     (if \<not> identityReady
      then startFlow_catch
             ''Identity not available after registration - this may indicate a network issue.'' s
      else s\<lparr> rg_phase := Done,
              rg_dispatched := rg_dispatched s @
                [RegCompleted (rg_controlAddress s) (rg_privateAddress s)],
              rg_awaiting := NotRunning \<rparr>)"
| "startFlow_resume _ _ s = s"

text \<open>The cleanup that \<open>onMount\<close> returns.\<close>

definition reg_unmount :: "register_step \<Rightarrow> register_step" where
  "reg_unmount s = s\<lparr> rg_liveTimers := clearIfSet (rg_timerInterval s) (rg_liveTimers s) \<rparr>"

text \<open>
  The event loop of the step. The Try Again button is shown while \<open>errorMsg\<close> is
  truthy and calls \<open>startFlow\<close>.
\<close>

datatype reg_input =
    RegAdvance nat
  | RegIntervalFires nat
  | Resolved backend_value
  | Rejected rejection
  | ClickTryAgain
  | Unmount

fun reg_step :: "reg_input \<Rightarrow> register_step \<Rightarrow> register_step" where
  "reg_step (RegAdvance ms) s = s\<lparr> rg_now := rg_now s + ms \<rparr>"
| "reg_step (RegIntervalFires h) s =
     (case map_of (rg_liveTimers s) h of None \<Rightarrow> s | Some _ \<Rightarrow> reg_clockTick s)"
| "reg_step (Resolved v) s = startFlow_resume (rg_awaiting s) v s"
| "reg_step (Rejected e) s =
     (if rg_awaiting s = NotRunning then s else startFlow_catch (messageOrString e) s)"
| "reg_step ClickTryAgain s = (if truthy_str (rg_errorMsg s) then startFlow s else s)"
| "reg_step Unmount s = reg_unmount s"

fun reg_run :: "reg_input list \<Rightarrow> register_step \<Rightarrow> register_step" where
  "reg_run [] s = s"
| "reg_run (e # es) s = reg_run es (reg_step e s)"

text \<open>The instance as the component creates it, and after \<open>onMount\<close>.\<close>

definition register_created :: "string \<Rightarrow> string \<Rightarrow> string \<Rightarrow> register_step" where
  "register_created name namespaceName referralCode =
     \<lparr> rg_name = name, rg_namespaceName = namespaceName, rg_referralCode = referralCode,
       rg_isRoot = False, rg_controlAddress = [], rg_privateAddress = [], rg_commitTxid = [],
       rg_namereservation = [], rg_finalizeTxid = [], rg_phase = Idle, rg_errorMsg = None,
       rg_phaseStartTime = 0, rg_elapsedSeconds = 0, rg_timerInterval = None,
       rg_now = 0, rg_nextTimerId = 1, rg_liveTimers = [],
       rg_awaiting = NotRunning, rg_invoked = [], rg_dispatched = [] \<rparr>"

definition onMount :: "register_step \<Rightarrow> register_step" where
  "onMount s = startFlow (s\<lparr> rg_isRoot := reg_isRootNamespace (rg_namespaceName s) \<rparr>)"

definition register_mounted :: register_step where
  "register_mounted = onMount (register_created ''alice'' ''valu'' [])"

section \<open>The bounded wait of the backend\<close>

text \<open>
  Modelled from the spec: the polling loop with a timeout behind the backend commands
  \<open>wait_for_block_increase\<close> and \<open>wait_for_identity_ready\<close>, whose code is not
  among the sources (the step only passes \<open>intervalSecs\<close> and \<open>timeoutSecs\<close> and
  reads the boolean). The spec: a poll tick fires every \<open>intervalMs\<close> and invokes the
  readiness predicate; on a true result the timer is cancelled and the tracker is
  \<open>succeeded\<close>; a transient error of the predicate changes nothing and polling
  continues; if \<open>timeoutMs\<close> is set and the elapsed time exceeds it, the tracker is
  \<open>failed\<close>. A tracker that is no longer waiting has no timer, so a tick does nothing.
\<close>

datatype poll_outcome = Ready | NotReady | TransientError

datatype wait_phase = Waiting | Succeeded | Failed

record wait_tracker =
  wt_phase :: wait_phase
  wt_elapsedMs :: nat
  wt_invocations :: nat

definition wait_started :: wait_tracker where
  "wait_started = \<lparr> wt_phase = Waiting, wt_elapsedMs = 0, wt_invocations = 0 \<rparr>"

definition wait_tick :: "nat \<Rightarrow> nat option \<Rightarrow> poll_outcome \<Rightarrow> wait_tracker \<Rightarrow> wait_tracker" where
  "wait_tick intervalMs timeoutMs outcome t =
     (if wt_phase t \<noteq> Waiting then t
      else let t1 = t\<lparr> wt_elapsedMs := wt_elapsedMs t + intervalMs,
                        wt_invocations := Suc (wt_invocations t) \<rparr>
           in if outcome = Ready then t1\<lparr> wt_phase := Succeeded \<rparr>
              else case timeoutMs of
                     None \<Rightarrow> t1
                   | Some limit \<Rightarrow> if wt_elapsedMs t1 > limit then t1\<lparr> wt_phase := Failed \<rparr> else t1)"

fun wait_run :: "nat \<Rightarrow> nat option \<Rightarrow> poll_outcome list \<Rightarrow> wait_tracker \<Rightarrow> wait_tracker" where
  "wait_run intervalMs timeoutMs [] t = t"
| "wait_run intervalMs timeoutMs (outcome # outcomes) t =
     wait_run intervalMs timeoutMs outcomes (wait_tick intervalMs timeoutMs outcome t)"

text \<open>The boolean the command resolves with once the tracker has left \<open>Waiting\<close>.\<close>

definition wait_result :: "wait_tracker \<Rightarrow> bool" where
  "wait_result t = (wt_phase t = Succeeded)"

section \<open>States and runs of the two steps\<close>


text \<open>The registration waiting for the block of its commitment, three seconds in.\<close>

definition register_waiting :: register_step where
  "register_waiting =
     reg_run [Resolved (VString ''RCtl''), Resolved (VCommit ''ctx'' ''nr''), RegAdvance 3000]
       register_mounted"

text \<open>The registration with its commitment requested, and the conversion with the
  conversion requested: the submission calls are pending.\<close>

definition register_committing :: register_step where
  "register_committing = reg_run [Resolved (VString ''RCtl'')] register_mounted"

definition conversion_sending :: conversion_step where
  "conversion_sending =
     conv_run [InitializeSettled 20 wallet_ok, ClickStart, BaselineResolved 0] conversion_mounted"



text \<open>Poll inputs of twenty seconds in which the balance never rises above the baseline.\<close>

definition never_ready_inputs :: "conv_input list" where
  "never_ready_inputs =
     [Advance 10000, IntervalFires 2, PollResolved 0, Advance 10000, IntervalFires 2, PollRejected]"

text \<open>
  What the user and the backend do in the run that leaves two poll intervals live: the
  wallet loads; a conversion is started and rejected; Try Again, and the reload fails,
  so the step shows the load error with its Retry button while the modal's Start
  Conversion button is enabled; Start Conversion; Retry while that start awaits the
  backend; Start Conversion again; both starts are then answered.
\<close>

definition two_starts :: "conv_input list" where
  "two_starts =
     [InitializeSettled 20 wallet_ok,
      ClickStart, BaselineResolved 0, SendRejected (RejectString ''insufficient funds''),
      ClickRetry, InitializeSettled 20 (WalletFailed (RejectString ''daemon busy'')),
      ClickStart,
      ClickRetry,
      ClickStart,
      BaselineResolved 0, BaselineResolved 0, SendResolved ''tx1'', SendResolved ''tx2'']"

text \<open>
  The host gives each handle once, and every live elapsed-time interval is the one
  \<open>timerInterval\<close> points to.
\<close>

definition clock_inv :: "nat \<Rightarrow> (nat \<times> timer_kind) list \<Rightarrow> nat option \<Rightarrow> bool" where
  "clock_inv next live handle =
     (0 < next \<and> distinct (map fst live) \<and>
      list_all (\<lambda>t. 0 < fst t \<and> fst t < next \<and>
                  (snd t = ElapsedClock \<longrightarrow> handle = Some (fst t))) live)"

definition conv_clock_inv :: "conversion_step \<Rightarrow> bool" where
  "conv_clock_inv s = clock_inv (cv_nextTimerId s) (cv_liveTimers s) (cv_timerInterval s)"

definition reg_clock_inv :: "register_step \<Rightarrow> bool" where
  "reg_clock_inv r = clock_inv (rg_nextTimerId r) (rg_liveTimers r) (rg_timerInterval r)"

section \<open>Notions used by the statements\<close>

text \<open>A rejection carries a message: always when it is a string, and when it is an object
  whose \<open>message\<close> is not empty.\<close>

fun has_message :: "rejection \<Rightarrow> bool" where
  "has_message (RejectString s) = True"
| "has_message (RejectObject m r) = (m \<noteq> [])"




text \<open>A poll input that does not observe the readiness condition in the state: an
  interval firing, time passing, a rejected poll call, a balance not above the baseline.\<close>

fun not_ready :: "rat \<Rightarrow> conv_input \<Rightarrow> bool" where
  "not_ready baseline (Advance ms) = True"
| "not_ready baseline (IntervalFires h) = True"
| "not_ready baseline (PollResolved b) = (b \<le> baseline)"
| "not_ready baseline PollRejected = True"
| "not_ready baseline _ = False"

section \<open>Results\<close>

subsection \<open>Referral discount\<close>







subsection \<open>Automatic funding\<close>

lemma totalRequired_value: "totalRequired = 2 / 10000"
  by (simp add: totalRequired_def TOTAL_FUNDING_AMOUNT_def UTXO_AMOUNT_def UTXO_COUNT_def
      estimatedFees_def)

lemma guard_is_preconditions:
  "(\<not> canAffordFunding s \<or> fm_privateAddress s = [] \<or> fm_isFunding s) = (\<not> fundingPreconditions s)"
  by (auto simp: canAffordFunding_def fundingPreconditions_def totalRequired_value
      split: option.splits)

text \<open>
  C9, as stated, on a modal that was closed while its funding call was pending and then
  shown again: \<open>resetState\<close> has cleared \<open>isFunding\<close>, so \<open>handleAutoFunding\<close>
  calls the backend a second time while the first call is still in flight.
\<close>

theorem C9_second_call_in_flight:
  "fm_fundingsInFlight funding_modal_reopened = 1 \<and>
   \<not> fm_isFunding funding_modal_reopened \<and>
   fm_fundingsInFlight (handleAutoFunding funding_modal_reopened) = 2 \<and>
   fm_invoked (handleAutoFunding funding_modal_reopened) =
     fm_invoked funding_modal_reopened @
       [Fund_private_address_for_messages_cmd ''zs1abc'' ''VRSC'']"
  by (simp add: funding_modal_reopened_def funding_modal_closed_def funding_modal_funding_def
      funding_modal_checked_def funding_modal_created_def setShow_def handleClose_def resetState_def checkWalletBalance_def
      checkResolved_def handleAutoFunding_def canAffordFunding_def totalRequired_value)

text \<open>
  C9, amended. \<open>handleAutoFunding\<close> calls the backend funding command exactly when
  the checked balance is at least the total required 0.0002 (0.0001 for the UTXO plus
  the fee estimate 0.0001), the private address is not empty and the flag
  \<open>isFunding\<close> is clear; it then issues exactly one call, for that address and
  currency, and sets the flag. When one of the three fails it returns the state
  unchanged, with no call. The flag is cleared when the call rejects and whenever the
  modal is shown, whatever is in flight.
\<close>

theorem C9_auto_funding_guard:
  "totalRequired = UTXO_AMOUNT + estimatedFees \<and> totalRequired = 2 / 10000 \<and>
   (fundingPreconditions s \<longrightarrow>
      handleAutoFunding s =
        s\<lparr> fm_isFunding := True, fm_fundingError := None,
           fm_invoked := fm_invoked s @
             [Fund_private_address_for_messages_cmd (fm_privateAddress s) (fm_currencySymbol s)],
           fm_fundingsInFlight := Suc (fm_fundingsInFlight s) \<rparr>) \<and>
   (\<not> fundingPreconditions s \<longrightarrow> handleAutoFunding s = s) \<and>
   (fm_invoked (handleAutoFunding s) \<noteq> fm_invoked s \<longrightarrow> fundingPreconditions s) \<and>
   (\<not> fm_show s \<longrightarrow>
      \<not> fm_isFunding (setShow True s) \<and>
      fm_fundingsInFlight (setShow True s) = fm_fundingsInFlight s) \<and>
   \<not> fm_isFunding (fundingRejected err s)"
proof -
  have a: "totalRequired = UTXO_AMOUNT + estimatedFees"
    by (simp add: totalRequired_def TOTAL_FUNDING_AMOUNT_def UTXO_COUNT_def)
  have b: "fundingPreconditions s \<Longrightarrow>
      handleAutoFunding s =
        s\<lparr> fm_isFunding := True, fm_fundingError := None,
           fm_invoked := fm_invoked s @
             [Fund_private_address_for_messages_cmd (fm_privateAddress s) (fm_currencySymbol s)],
           fm_fundingsInFlight := Suc (fm_fundingsInFlight s) \<rparr>"
    unfolding handleAutoFunding_def guard_is_preconditions by simp
  have c: "\<not> fundingPreconditions s \<Longrightarrow> handleAutoFunding s = s"
    unfolding handleAutoFunding_def guard_is_preconditions by simp
  have d: "fm_invoked (handleAutoFunding s) \<noteq> fm_invoked s \<Longrightarrow> fundingPreconditions s"
  proof (rule ccontr)
    assume neq: "fm_invoked (handleAutoFunding s) \<noteq> fm_invoked s"
      and "\<not> fundingPreconditions s"
    then have "handleAutoFunding s = s" by (rule_tac c)
    with neq show False by simp
  qed
  have e: "\<not> fm_show s \<Longrightarrow>
      \<not> fm_isFunding (setShow True s) \<and>
      fm_fundingsInFlight (setShow True s) = fm_fundingsInFlight s"
    by (simp add: setShow_def resetState_def checkWalletBalance_def)
  have f: "\<not> fm_isFunding (fundingRejected err s)"
    by (simp add: fundingRejected_def)
  from a b c d e f totalRequired_value show ?thesis by blast
qed

theorem C9_auto_funding_guard_witness:
  "fundingPreconditions (funding_modal_checked (3 / 10000) ''zs1abc'') \<and>
   fm_invoked (handleAutoFunding (funding_modal_checked (3 / 10000) ''zs1abc'')) =
     [Get_wallet_info, Fund_private_address_for_messages_cmd ''zs1abc'' ''VRSC''] \<and>
   \<not> fundingPreconditions (funding_modal_checked (1 / 10000) ''zs1abc'') \<and>
   handleAutoFunding (funding_modal_checked (1 / 10000) ''zs1abc'') =
     funding_modal_checked (1 / 10000) ''zs1abc'' \<and>
   \<not> fundingPreconditions (funding_modal_checked (3 / 10000) []) \<and>
   handleAutoFunding (funding_modal_checked (3 / 10000) []) =
     funding_modal_checked (3 / 10000) [] \<and>
   \<not> fundingPreconditions funding_modal_funding \<and>
   handleAutoFunding funding_modal_funding = funding_modal_funding \<and>
   \<not> fundingPreconditions (funding_modal_created ''zs1abc'') \<and>
   handleAutoFunding (funding_modal_created ''zs1abc'') = funding_modal_created ''zs1abc'' \<and>
   \<not> fm_show funding_modal_closed \<and>
   fm_isFunding funding_modal_closed \<and>
   \<not> fm_isFunding (setShow True funding_modal_closed) \<and>
   fm_fundingsInFlight (setShow True funding_modal_closed) = 1"
proof -
  have h1: "fundingPreconditions (funding_modal_checked (3 / 10000) ''zs1abc'')"
    and h2: "\<not> fundingPreconditions (funding_modal_checked (1 / 10000) ''zs1abc'')"
    and h3: "\<not> fundingPreconditions (funding_modal_checked (3 / 10000) [])"
    and h5: "\<not> fundingPreconditions (funding_modal_created ''zs1abc'')"
    by (simp_all add: fundingPreconditions_def funding_modal_checked_def
        funding_modal_created_def setShow_def resetState_def checkWalletBalance_def
        checkResolved_def)
  have h4: "\<not> fundingPreconditions funding_modal_funding"
    by (simp add: fundingPreconditions_def funding_modal_funding_def funding_modal_checked_def
        funding_modal_created_def setShow_def resetState_def checkWalletBalance_def
        checkResolved_def handleAutoFunding_def canAffordFunding_def totalRequired_value)
  have v: "fm_invoked (funding_modal_checked (3 / 10000) ''zs1abc'') = [Get_wallet_info]"
    "fm_privateAddress (funding_modal_checked (3 / 10000) ''zs1abc'') = ''zs1abc''"
    "fm_currencySymbol (funding_modal_checked (3 / 10000) ''zs1abc'') = ''VRSC''"
    by (simp_all add: funding_modal_checked_def funding_modal_created_def setShow_def
        resetState_def checkWalletBalance_def checkResolved_def)
  from C9_auto_funding_guard [of "funding_modal_checked (3 / 10000) ''zs1abc''"] h1
  have "handleAutoFunding (funding_modal_checked (3 / 10000) ''zs1abc'') =
      (funding_modal_checked (3 / 10000) ''zs1abc'')
        \<lparr> fm_isFunding := True, fm_fundingError := None,
          fm_invoked := fm_invoked (funding_modal_checked (3 / 10000) ''zs1abc'') @
            [Fund_private_address_for_messages_cmd
               (fm_privateAddress (funding_modal_checked (3 / 10000) ''zs1abc''))
               (fm_currencySymbol (funding_modal_checked (3 / 10000) ''zs1abc''))],
          fm_fundingsInFlight := Suc (fm_fundingsInFlight (funding_modal_checked (3 / 10000) ''zs1abc'')) \<rparr>"
    by blast
  then have c1: "fm_invoked (handleAutoFunding (funding_modal_checked (3 / 10000) ''zs1abc'')) =
     [Get_wallet_info, Fund_private_address_for_messages_cmd ''zs1abc'' ''VRSC'']"
    by (simp add: v)
  from C9_auto_funding_guard [of "funding_modal_checked (1 / 10000) ''zs1abc''"] h2
  have c2: "handleAutoFunding (funding_modal_checked (1 / 10000) ''zs1abc'') =
     funding_modal_checked (1 / 10000) ''zs1abc''" by blast
  from C9_auto_funding_guard [of "funding_modal_checked (3 / 10000) []"] h3
  have c3: "handleAutoFunding (funding_modal_checked (3 / 10000) []) =
     funding_modal_checked (3 / 10000) []" by blast
  from C9_auto_funding_guard [of funding_modal_funding] h4
  have c4: "handleAutoFunding funding_modal_funding = funding_modal_funding" by blast
  from C9_auto_funding_guard [of "funding_modal_created ''zs1abc''"] h5
  have c5: "handleAutoFunding (funding_modal_created ''zs1abc'') = funding_modal_created ''zs1abc''"
    by blast
  have h6: "\<not> fm_show funding_modal_closed"
    and v6: "fm_isFunding funding_modal_closed"
    and w6: "fm_fundingsInFlight funding_modal_closed = 1"
    by (simp_all add: funding_modal_closed_def funding_modal_funding_def
        funding_modal_checked_def funding_modal_created_def setShow_def resetState_def
        checkWalletBalance_def checkResolved_def handleAutoFunding_def handleClose_def
        canAffordFunding_def totalRequired_value)
  from C9_auto_funding_guard [of funding_modal_closed] h6
  have "\<not> fm_isFunding (setShow True funding_modal_closed) \<and>
      fm_fundingsInFlight (setShow True funding_modal_closed) =
        fm_fundingsInFlight funding_modal_closed"
    by blast
  then have c6: "\<not> fm_isFunding (setShow True funding_modal_closed) \<and>
      fm_fundingsInFlight (setShow True funding_modal_closed) = 1"
    using w6 by simp
  from h1 h2 h3 h4 h5 h6 v6 c1 c2 c3 c4 c5 c6 show ?thesis by blast
qed

subsection \<open>The name input\<close>











subsection \<open>The conversion tracker\<close>

lemma clearIfSet_subset: "set (clearIfSet a live) \<subseteq> set live"
  by (auto simp: clearIfSet_def clearInterval_live_def split: option.splits)

lemma clearIfSet_falsy: "\<not> truthy_handle a \<Longrightarrow> clearIfSet a live = live"
  by (simp add: clearIfSet_def truthy_handle_def split: option.splits)



lemma clearIfSet_set:
  "set (clearIfSet a live) = {t \<in> set live. \<not> (truthy_handle a \<and> a = Some (fst t))}"
  by (auto simp: clearIfSet_def clearInterval_live_def truthy_handle_def split: option.splits)



lemma stopTimer_live:
  "cv_liveTimers (stopTimer s) = clearIfSet (cv_timerInterval s) (cv_liveTimers s)"
  by (simp add: stopTimer_def clearIfSet_falsy)





lemma onDestroy_live:
  "cv_liveTimers (onDestroy s) =
     clearIfSet (cv_timerInterval s) (clearIfSet (cv_pollingInterval s) (cv_liveTimers s))"
  by (simp add: onDestroy_def Let_def)









subsection \<open>Teardown\<close>





lemma clearIfSet_idem: "clearIfSet h (clearIfSet h live) = clearIfSet h live"
  by (simp add: clearIfSet_def clearInterval_live_def split: option.splits)

lemma clearIfSet_commute: "clearIfSet a (clearIfSet b live) = clearIfSet b (clearIfSet a live)"
  by (auto simp: clearIfSet_def clearInterval_live_def conj_commute split: option.splits)

lemma handle_cleared:
  "h \<noteq> 0 \<Longrightarrow> h \<notin> fst ` set (clearIfSet (Some h) live)"
  by (auto simp: clearIfSet_set truthy_handle_def)

text \<open>
  C6. The cancel operations (\<open>stopTimer\<close> of both components, \<open>onDestroy\<close> of the
  conversion step, the unmount cleanup of the registration step) have no precondition and
  no failing branch; calling one a second time leaves the state as the first call left
  it; after the call the interval the handle pointed to is no longer live.
\<close>

theorem C6_cancel_idempotent:
  "stopTimer (stopTimer s) = stopTimer s \<and>
   onDestroy (onDestroy s) = onDestroy s \<and>
   reg_stopTimer (reg_stopTimer r) = reg_stopTimer r \<and>
   reg_unmount (reg_unmount r) = reg_unmount r \<and>
   (cv_timerInterval s = Some h \<and> h \<noteq> 0 \<longrightarrow>
      h \<notin> fst ` set (cv_liveTimers (stopTimer s)) \<and> cv_timerInterval (stopTimer s) = None \<and>
      h \<notin> fst ` set (cv_liveTimers (onDestroy s))) \<and>
   (cv_pollingInterval s = Some h \<and> h \<noteq> 0 \<longrightarrow>
      h \<notin> fst ` set (cv_liveTimers (onDestroy s))) \<and>
   (rg_timerInterval r = Some h \<and> h \<noteq> 0 \<longrightarrow>
      h \<notin> fst ` set (rg_liveTimers (reg_stopTimer r)) \<and> rg_timerInterval (reg_stopTimer r) = None \<and>
      h \<notin> fst ` set (rg_liveTimers (reg_unmount r)))"
proof -
  have a: "stopTimer (stopTimer s) = stopTimer s"
    by (simp add: stopTimer_def truthy_handle_def split: option.splits)
  have b: "onDestroy (onDestroy s) = onDestroy s"
    by (simp add: onDestroy_def Let_def clearIfSet_idem
        clearIfSet_commute [of "cv_pollingInterval s"])
  have c: "reg_stopTimer (reg_stopTimer r) = reg_stopTimer r"
    by (simp add: reg_stopTimer_def truthy_handle_def split: option.splits)
  have d: "reg_unmount (reg_unmount r) = reg_unmount r"
    by (simp add: reg_unmount_def clearIfSet_idem)
  have e: "h \<notin> fst ` set (cv_liveTimers (stopTimer s)) \<and> cv_timerInterval (stopTimer s) = None \<and>
      h \<notin> fst ` set (cv_liveTimers (onDestroy s))"
    if "cv_timerInterval s = Some h \<and> h \<noteq> 0"
    using that handle_cleared [of h "cv_liveTimers s"]
      handle_cleared [of h "clearIfSet (cv_pollingInterval s) (cv_liveTimers s)"]
    by (simp add: stopTimer_def truthy_handle_def onDestroy_live)
  have f: "h \<notin> fst ` set (cv_liveTimers (onDestroy s))"
    if "cv_pollingInterval s = Some h \<and> h \<noteq> 0"
    using that handle_cleared [of h "clearIfSet (cv_timerInterval s) (cv_liveTimers s)"]
    by (simp add: onDestroy_live clearIfSet_commute [of "cv_timerInterval s"])
  have g: "h \<notin> fst ` set (rg_liveTimers (reg_stopTimer r)) \<and> rg_timerInterval (reg_stopTimer r) = None \<and>
      h \<notin> fst ` set (rg_liveTimers (reg_unmount r))"
    if "rg_timerInterval r = Some h \<and> h \<noteq> 0"
    using that handle_cleared [of h "rg_liveTimers r"]
    by (simp add: reg_stopTimer_def truthy_handle_def reg_unmount_def)
  from a b c d e f g show ?thesis by blast
qed

theorem C6_cancel_idempotent_witness:
  "cv_timerInterval conversion_polling = Some 1 \<and> (1::nat) \<noteq> 0 \<and>
   cv_pollingInterval conversion_polling = Some 2 \<and> (2::nat) \<noteq> 0 \<and>
   rg_timerInterval register_waiting = Some 1 \<and>
   cv_liveTimers conversion_polling = [(1, ElapsedClock), (2, PollLoop)] \<and>
   cv_liveTimers (stopTimer conversion_polling) = [(2, PollLoop)] \<and>
   stopTimer (stopTimer conversion_polling) = stopTimer conversion_polling \<and>
   cv_liveTimers (onDestroy conversion_polling) = [] \<and>
   onDestroy (onDestroy conversion_polling) = onDestroy conversion_polling \<and>
   rg_liveTimers register_waiting = [(1, ElapsedClock)] \<and>
   rg_liveTimers (reg_stopTimer register_waiting) = [] \<and>
   reg_stopTimer (reg_stopTimer register_waiting) = reg_stopTimer register_waiting \<and>
   reg_unmount (reg_unmount register_waiting) = reg_unmount register_waiting"
proof -
  have h1: "cv_timerInterval conversion_polling = Some 1" by code_simp
  have h2: "cv_pollingInterval conversion_polling = Some 2" by code_simp
  have h3: "rg_timerInterval register_waiting = Some 1" by code_simp
  have v1: "cv_liveTimers conversion_polling = [(1, ElapsedClock), (2, PollLoop)]" by code_simp
  have v2: "cv_liveTimers (stopTimer conversion_polling) = [(2, PollLoop)]" by code_simp
  have v3: "cv_liveTimers (onDestroy conversion_polling) = []" by code_simp
  have v4: "rg_liveTimers register_waiting = [(1, ElapsedClock)]" by code_simp
  have v5: "rg_liveTimers (reg_stopTimer register_waiting) = []" by code_simp
  note T = C6_cancel_idempotent [of conversion_polling register_waiting 1]
  from T have c1: "stopTimer (stopTimer conversion_polling) = stopTimer conversion_polling"
    and c2: "onDestroy (onDestroy conversion_polling) = onDestroy conversion_polling"
    and c3: "reg_stopTimer (reg_stopTimer register_waiting) = reg_stopTimer register_waiting"
    and c4: "reg_unmount (reg_unmount register_waiting) = reg_unmount register_waiting"
    by blast+
  have n1: "(1::nat) \<noteq> 0" and n2: "(2::nat) \<noteq> 0" by simp_all
  from h1 h2 h3 v1 v2 v3 v4 v5 c1 c2 c3 c4 n1 n2 show ?thesis by blast
qed


subsection \<open>A rejected submission\<close>

lemma message_verbatim: "has_message e \<Longrightarrow> messageOrString e = raisedMessage e"
  by (cases e) auto

text \<open>
  C3, amended. When the submission call rejects (\<open>register_name_commitment\<close> in the
  registration, \<open>send_currency_conversion\<close> in the conversion), the tracker goes
  directly to its failed state: the registration to phase \<open>error\<close> with
  \<open>errorMsg\<close> the raised message verbatim; the conversion to not converting with
  \<open>conversionError\<close> the raised message behind the prefix
  \<open>Failed to start conversion: \<close>. (The raised message is the payload when it is a
  string and its \<open>message\<close> field when that is not empty.) No backend command is
  issued, no interval is created and no poll call is made by the rejection; the
  registration then ignores every settlement until Try Again.
\<close>

theorem C3_submission_rejected:
  "(rg_awaiting r = AwaitCommit \<longrightarrow>
      rg_phase (reg_step (Rejected e) r) = PhaseError \<and>
      rg_errorMsg (reg_step (Rejected e) r) = Some (messageOrString e) \<and>
      (has_message e \<longrightarrow> rg_errorMsg (reg_step (Rejected e) r) = Some (raisedMessage e)) \<and>
      rg_awaiting (reg_step (Rejected e) r) = NotRunning \<and>
      rg_invoked (reg_step (Rejected e) r) = rg_invoked r \<and>
      rg_nextTimerId (reg_step (Rejected e) r) = rg_nextTimerId r \<and>
      set (rg_liveTimers (reg_step (Rejected e) r)) \<subseteq> set (rg_liveTimers r) \<and>
      reg_step (Resolved v) (reg_step (Rejected e) r) = reg_step (Rejected e) r) \<and>
   (0 < cv_startsAwaitingSend s \<longrightarrow>
      cv_conversionError (conv_step (SendRejected e) s) =
        Some (''Failed to start conversion: '' @ messageOrString e) \<and>
      (has_message e \<longrightarrow>
         cv_conversionError (conv_step (SendRejected e) s) =
           Some (''Failed to start conversion: '' @ raisedMessage e)) \<and>
      \<not> cv_converting (conv_step (SendRejected e) s) \<and>
      cv_conversionStarted (conv_step (SendRejected e) s) = cv_conversionStarted s \<and>
      cv_invoked (conv_step (SendRejected e) s) = cv_invoked s \<and>
      cv_pollsInFlight (conv_step (SendRejected e) s) = cv_pollsInFlight s \<and>
      cv_nextTimerId (conv_step (SendRejected e) s) = cv_nextTimerId s \<and>
      cv_pollingInterval (conv_step (SendRejected e) s) = cv_pollingInterval s \<and>
      cv_liveTimers (conv_step (SendRejected e) s) = cv_liveTimers s)"
proof -
  define r' where "r' = reg_step (Rejected e) r"
  define s' where "s' = conv_step (SendRejected e) s"
  have reg: "rg_phase r' = PhaseError \<and>
      rg_errorMsg r' = Some (messageOrString e) \<and>
      rg_awaiting r' = NotRunning \<and>
      rg_invoked r' = rg_invoked r \<and>
      rg_nextTimerId r' = rg_nextTimerId r \<and>
      set (rg_liveTimers r') \<subseteq> set (rg_liveTimers r)"
    if "rg_awaiting r = AwaitCommit"
    using that clearIfSet_subset [of "rg_timerInterval r" "rg_liveTimers r"]
    by (simp add: r'_def startFlow_catch_def reg_stopTimer_def Let_def)
  have reg2: "rg_errorMsg r' = Some (raisedMessage e)"
    if "rg_awaiting r = AwaitCommit" "has_message e"
    using reg [OF that(1)] message_verbatim [OF that(2)] by simp
  have reg3: "reg_step (Resolved v) r' = r'" if "rg_awaiting r = AwaitCommit"
    using reg [OF that] by simp
  have conv: "cv_conversionError s' = Some (''Failed to start conversion: '' @ messageOrString e) \<and>
      \<not> cv_converting s' \<and>
      cv_conversionStarted s' = cv_conversionStarted s \<and>
      cv_invoked s' = cv_invoked s \<and>
      cv_pollsInFlight s' = cv_pollsInFlight s \<and>
      cv_nextTimerId s' = cv_nextTimerId s \<and>
      cv_pollingInterval s' = cv_pollingInterval s \<and>
      cv_liveTimers s' = cv_liveTimers s"
    if "0 < cv_startsAwaitingSend s"
    using that by (simp add: s'_def startConversion_catch_def)
  have conv2: "cv_conversionError s' = Some (''Failed to start conversion: '' @ raisedMessage e)"
    if "0 < cv_startsAwaitingSend s" "has_message e"
    using conv [OF that(1)] message_verbatim [OF that(2)] by simp
  from reg reg2 reg3 conv conv2 show ?thesis
    unfolding r'_def s'_def by blast
qed

theorem C3_submission_rejected_witness:
  "rg_awaiting register_committing = AwaitCommit \<and>
   has_message (RejectString ''insufficient funds'') \<and>
   0 < cv_startsAwaitingSend conversion_sending \<and>
   rg_phase (reg_step (Rejected (RejectString ''insufficient funds'')) register_committing) = PhaseError \<and>
   rg_errorMsg (reg_step (Rejected (RejectString ''insufficient funds'')) register_committing) =
     Some ''insufficient funds'' \<and>
   rg_invoked (reg_step (Rejected (RejectString ''insufficient funds'')) register_committing) =
     [Get_new_address, Register_name_commitment ''alice'' ''RCtl'' [] ''valu''] \<and>
   rg_liveTimers (reg_step (Rejected (RejectString ''insufficient funds'')) register_committing) = [] \<and>
   cv_conversionError (conv_step (SendRejected (RejectString ''insufficient funds'')) conversion_sending) =
     Some ''Failed to start conversion: insufficient funds'' \<and>
   \<not> cv_converting (conv_step (SendRejected (RejectString ''insufficient funds'')) conversion_sending) \<and>
   cv_liveTimers (conv_step (SendRejected (RejectString ''insufficient funds'')) conversion_sending) = []"
proof -
  let ?e = "RejectString ''insufficient funds''"
  have h1: "rg_awaiting register_committing = AwaitCommit" by code_simp
  have h2: "has_message ?e" by simp
  have h3: "0 < cv_startsAwaitingSend conversion_sending" by code_simp
  have v1: "rg_invoked register_committing =
      [Get_new_address, Register_name_commitment ''alice'' ''RCtl'' [] ''valu'']" by code_simp
  have v2: "rg_liveTimers register_committing = []" by code_simp
  have v3: "cv_liveTimers conversion_sending = []" by code_simp
  note T = C3_submission_rejected [of register_committing ?e _ conversion_sending]
  from T h1 have c1: "rg_phase (reg_step (Rejected ?e) register_committing) = PhaseError" by blast
  from T h1 h2 have "rg_errorMsg (reg_step (Rejected ?e) register_committing) = Some (raisedMessage ?e)"
    by blast
  then have c2: "rg_errorMsg (reg_step (Rejected ?e) register_committing) = Some ''insufficient funds''"
    by simp
  from T h1 have "rg_invoked (reg_step (Rejected ?e) register_committing) = rg_invoked register_committing"
    by blast
  then have c3: "rg_invoked (reg_step (Rejected ?e) register_committing) =
     [Get_new_address, Register_name_commitment ''alice'' ''RCtl'' [] ''valu'']"
    using v1 by (rule trans)
  from T h1 have "set (rg_liveTimers (reg_step (Rejected ?e) register_committing)) \<subseteq>
      set (rg_liveTimers register_committing)" by blast
  with v2 have c4: "rg_liveTimers (reg_step (Rejected ?e) register_committing) = []" by simp
  from T h3 h2 have "cv_conversionError (conv_step (SendRejected ?e) conversion_sending) =
     Some (''Failed to start conversion: '' @ raisedMessage ?e)" by blast
  then have c5: "cv_conversionError (conv_step (SendRejected ?e) conversion_sending) =
     Some ''Failed to start conversion: insufficient funds''" by simp
  from T h3 have c6: "\<not> cv_converting (conv_step (SendRejected ?e) conversion_sending)" by blast
  from T h3 have "cv_liveTimers (conv_step (SendRejected ?e) conversion_sending) =
     cv_liveTimers conversion_sending" by blast
  then have c7: "cv_liveTimers (conv_step (SendRejected ?e) conversion_sending) = []"
    using v3 by (rule trans)
  from h1 h2 h3 c1 c2 c3 c4 c5 c6 c7 show ?thesis by blast
qed

text \<open>
  C3, as stated, in the conversion flow, on the rejection \<open>insufficient funds\<close>: the
  message shown is not the raised message but the raised message behind a prefix.
\<close>

theorem C3_message_prefixed:
  "cv_conversionError (conv_step (SendRejected (RejectString ''insufficient funds'')) conversion_sending) =
     Some ''Failed to start conversion: insufficient funds'' \<and>
   cv_conversionError (conv_step (SendRejected (RejectString ''insufficient funds'')) conversion_sending) \<noteq>
     Some ''insufficient funds''"
  by code_simp


subsection \<open>Starting again\<close>

lemma initializeSettled_timers:
  "cv_liveTimers (initializeSettled t a s) = cv_liveTimers s"
  "cv_timerInterval (initializeSettled t a s) = cv_timerInterval s"
  "cv_pollingInterval (initializeSettled t a s) = cv_pollingInterval s"
  "cv_nextTimerId (initializeSettled t a s) = cv_nextTimerId s"
  "cv_now (initializeSettled t a s) = cv_now s"
  by (simp_all add: initializeSettled_def Let_def split: wallet_answer.splits)














subsection \<open>Timeouts\<close>

lemma wait_run_stopped: "wt_phase t \<noteq> Waiting \<Longrightarrow> wait_run i tmo os t = t"
  by (induction os) (simp_all add: wait_tick_def)

lemma div_eq_of_bounds:
  fixes i j tmo :: nat
  assumes "j * i \<le> tmo" and "tmo < Suc j * i"
  shows "tmo div i = j"
  using assms by (intro div_nat_eqI) (simp_all add: mult.commute)

lemma le_div_of_mult_le:
  fixes i j tmo :: nat
  assumes "0 < i" and "j * i \<le> tmo"
  shows "j \<le> tmo div i"
  using assms by (simp add: less_eq_div_iff_mult_less_eq)

lemma wait_run_from:
  assumes "0 < i" and "list_all (\<lambda>out. out \<noteq> Ready) os"
    and "wt_phase t = Waiting" and "wt_elapsedMs t = j * i" and "wt_invocations t = j"
    and "j * i \<le> tmo"
  shows "(j + length os \<le> tmo div i \<longrightarrow>
           wt_phase (wait_run i (Some tmo) os t) = Waiting \<and>
           wt_elapsedMs (wait_run i (Some tmo) os t) = (j + length os) * i \<and>
           wt_invocations (wait_run i (Some tmo) os t) = j + length os) \<and>
         (tmo div i < j + length os \<longrightarrow>
           wt_phase (wait_run i (Some tmo) os t) = Failed \<and>
           wt_elapsedMs (wait_run i (Some tmo) os t) = Suc (tmo div i) * i \<and>
           wt_invocations (wait_run i (Some tmo) os t) = Suc (tmo div i))"
  using assms
proof (induction os arbitrary: t j)
  case Nil
  from le_div_of_mult_le [OF Nil.prems(1) Nil.prems(6)] Nil.prems show ?case by simp
next
  case (Cons out os)
  from Cons.prems(2) have nr: "out \<noteq> Ready" and rest: "list_all (\<lambda>out. out \<noteq> Ready) os"
    by simp_all
  define t1 where "t1 = wait_tick i (Some tmo) out t"
  show ?case
  proof (cases "tmo < Suc j * i")
    case True
    then have "tmo < wt_elapsedMs t + i" using Cons.prems(4) by simp
    then have t1: "t1 = t\<lparr> wt_elapsedMs := wt_elapsedMs t + i,
        wt_invocations := Suc (wt_invocations t), wt_phase := Failed \<rparr>"
      using nr Cons.prems(3) by (simp add: t1_def wait_tick_def Let_def)
    then have "wt_phase t1 \<noteq> Waiting" by simp
    then have run: "wait_run i (Some tmo) (out # os) t = t1"
      using wait_run_stopped [of t1 i "Some tmo" os] by (simp add: t1_def)
    have d: "tmo div i = j" using Cons.prems(6) True by (rule div_eq_of_bounds)
    show ?thesis unfolding run using t1 d Cons.prems(4) Cons.prems(5) by simp
  next
    case False
    then have le: "Suc j * i \<le> tmo" by simp
    then have "\<not> tmo < wt_elapsedMs t + i" using Cons.prems(4) by simp
    then have t1: "t1 = t\<lparr> wt_elapsedMs := wt_elapsedMs t + i,
        wt_invocations := Suc (wt_invocations t) \<rparr>"
      using nr Cons.prems(3) by (simp add: t1_def wait_tick_def Let_def)
    have p: "wt_phase t1 = Waiting" using t1 Cons.prems(3) by simp
    have e: "wt_elapsedMs t1 = Suc j * i" using t1 Cons.prems(4) by simp
    have n: "wt_invocations t1 = Suc j" using t1 Cons.prems(5) by simp
    have run: "wait_run i (Some tmo) (out # os) t = wait_run i (Some tmo) os t1"
      by (simp add: t1_def)
    from Cons.IH [OF Cons.prems(1) rest p e n le] show ?thesis
      unfolding run by simp
  qed
qed

lemma wait_bounded:
  assumes "0 < i" and "list_all (\<lambda>out. out \<noteq> Ready) os"
  shows "(length os \<le> tmo div i \<longrightarrow>
           wt_phase (wait_run i (Some tmo) os wait_started) = Waiting \<and>
           wt_invocations (wait_run i (Some tmo) os wait_started) = length os) \<and>
         (tmo div i < length os \<longrightarrow>
           wt_phase (wait_run i (Some tmo) os wait_started) = Failed \<and>
           \<not> wait_result (wait_run i (Some tmo) os wait_started) \<and>
           tmo < wt_elapsedMs (wait_run i (Some tmo) os wait_started) \<and>
           wt_elapsedMs (wait_run i (Some tmo) os wait_started) \<le> tmo + i \<and>
           wt_invocations (wait_run i (Some tmo) os wait_started) = Suc (tmo div i))"
proof -
  have a: "tmo < Suc (tmo div i) * i"
    using assms(1) dividend_less_div_times [of i tmo] by (simp add: add.commute)
  have b: "Suc (tmo div i) * i \<le> tmo + i"
    by (simp add: add.commute)
  from wait_run_from [OF assms, of wait_started 0 tmo] a b
  show ?thesis by (simp add: wait_started_def wait_result_def)
qed

lemma wait_unbounded:
  assumes "list_all (\<lambda>out. out \<noteq> Ready) os" and "wt_phase t = Waiting"
  shows "wt_phase (wait_run i None os t) = Waiting \<and>
         wt_invocations (wait_run i None os t) = wt_invocations t + length os"
  using assms by (induction os arbitrary: t) (simp_all add: wait_tick_def Let_def)

lemma not_ready_step:
  assumes "not_ready (cv_baselineBalance s) e"
  shows "cv_liveTimers (conv_step e s) = cv_liveTimers s \<and>
         cv_pollingInterval (conv_step e s) = cv_pollingInterval s \<and>
         cv_baselineBalance (conv_step e s) = cv_baselineBalance s \<and>
         cv_conversionError (conv_step e s) = cv_conversionError s \<and>
         cv_error (conv_step e s) = cv_error s \<and>
         cv_conversionStarted (conv_step e s) = cv_conversionStarted s \<and>
         cv_converting (conv_step e s) = cv_converting s \<and>
         cv_conversionCompleted (conv_step e s) = cv_conversionCompleted s \<and>
         cv_dispatched (conv_step e s) = cv_dispatched s"
  using assms
  by (cases e)
     (simp_all add: pollTick_def clockTick_def pollResolved_def pollRejected_def Let_def
        split: option.splits timer_kind.splits)

lemma not_ready_run:
  assumes "list_all (not_ready (cv_baselineBalance s)) es"
  shows "cv_liveTimers (conv_run es s) = cv_liveTimers s \<and>
         cv_pollingInterval (conv_run es s) = cv_pollingInterval s \<and>
         cv_baselineBalance (conv_run es s) = cv_baselineBalance s \<and>
         cv_conversionError (conv_run es s) = cv_conversionError s \<and>
         cv_error (conv_run es s) = cv_error s \<and>
         cv_conversionStarted (conv_run es s) = cv_conversionStarted s \<and>
         cv_converting (conv_run es s) = cv_converting s \<and>
         cv_conversionCompleted (conv_run es s) = cv_conversionCompleted s \<and>
         cv_dispatched (conv_run es s) = cv_dispatched s"
  using assms
proof (induction es arbitrary: s)
  case Nil
  then show ?case by simp
next
  case (Cons e es)
  from Cons.prems have e: "not_ready (cv_baselineBalance s) e"
    and es: "list_all (not_ready (cv_baselineBalance s)) es" by simp_all
  note st = not_ready_step [OF e]
  from st es have "list_all (not_ready (cv_baselineBalance (conv_step e s))) es" by simp
  from Cons.IH [OF this] st show ?case by simp
qed

lemma poll_fires:
  assumes "map_of (cv_liveTimers s) h = Some PollLoop"
  shows "cv_invoked (conv_step (IntervalFires h) s) =
     cv_invoked s @
       [Get_address_currency_balance (cv_selectedDestinationAddress s) (cv_targetCurrency s)]"
  using assms by (simp add: pollTick_def)


lemma wait_call_sites:
  "rg_invoked (startFlow_resume AwaitCommit (VCommit tx nr) r) =
     rg_invoked r @ [Wait_for_block_increase 1 POLL_INTERVAL_SECS TIMEOUT_SECS]"
  "rg_invoked (startFlow_resume AwaitRegister (VString tx) r) =
     rg_invoked r @ [Wait_for_block_increase 1 POLL_INTERVAL_SECS TIMEOUT_SECS]"
  "rg_invoked (startFlow_resume AwaitFinalizeBlock (VBool True) r) =
     rg_invoked r @ [Wait_for_identity_ready (fullId r) POLL_INTERVAL_SECS TIMEOUT_SECS]"
  by (simp_all add: Let_def reg_startTimer_def reg_stopTimer_def waitForBlock_def fullId_def)

lemma wait_timed_out:
  "rg_phase (startFlow_resume AwaitCommitBlock (VBool False) r) = PhaseError"
  "rg_errorMsg (startFlow_resume AwaitCommitBlock (VBool False) r) =
     Some ''Commit transaction not confirmed in time.''"
  "rg_invoked (startFlow_resume AwaitCommitBlock (VBool False) r) = rg_invoked r"
  "rg_phase (startFlow_resume AwaitFinalizeBlock (VBool False) r) = PhaseError"
  "rg_errorMsg (startFlow_resume AwaitFinalizeBlock (VBool False) r) =
     Some ''Finalize transaction not confirmed in time.''"
  "rg_invoked (startFlow_resume AwaitFinalizeBlock (VBool False) r) = rg_invoked r"
  "rg_phase (startFlow_resume AwaitIdentityReady (VBool False) r) = PhaseError"
  "rg_invoked (startFlow_resume AwaitIdentityReady (VBool False) r) = rg_invoked r"
  by (simp_all add: Let_def startFlow_catch_def reg_stopTimer_def)

text \<open>
  C4. The bounded wait (modelled from the spec): for a positive interval and a positive
  timeout, while the predicate is never ready the tracker keeps waiting for the first
  \<open>timeoutMs div intervalMs\<close> ticks, one invocation per tick; the next tick fails it,
  at an elapsed time above \<open>timeoutMs\<close> and at most \<open>timeoutMs + intervalMs\<close>, and no
  later tick invokes the predicate. The registration passes the interval 10 s and the
  timeout 1800 s at each of its three waits and goes to phase \<open>error\<close> when a wait
  resolves with false. The poll of the conversion has no timeout: whatever poll inputs
  that are never ready arrive, the poll interval stays live, no error is set, and the
  next firing of the poll interval invokes the predicate again.
\<close>

theorem C4_timeout:
  assumes "0 < intervalMs" and "0 < timeoutMs"
    and "list_all (\<lambda>out. out \<noteq> Ready) outcomes"
    and "list_all (not_ready (cv_baselineBalance s)) es"
  shows "(length outcomes \<le> timeoutMs div intervalMs \<longrightarrow>
       wt_phase (wait_run intervalMs (Some timeoutMs) outcomes wait_started) = Waiting \<and>
       wt_invocations (wait_run intervalMs (Some timeoutMs) outcomes wait_started) =
         length outcomes) \<and>
     (timeoutMs div intervalMs < length outcomes \<longrightarrow>
       wt_phase (wait_run intervalMs (Some timeoutMs) outcomes wait_started) = Failed \<and>
       \<not> wait_result (wait_run intervalMs (Some timeoutMs) outcomes wait_started) \<and>
       timeoutMs < wt_elapsedMs (wait_run intervalMs (Some timeoutMs) outcomes wait_started) \<and>
       wt_elapsedMs (wait_run intervalMs (Some timeoutMs) outcomes wait_started) \<le>
         timeoutMs + intervalMs \<and>
       wt_invocations (wait_run intervalMs (Some timeoutMs) outcomes wait_started) =
         Suc (timeoutMs div intervalMs)) \<and>
     wt_phase (wait_run intervalMs None outcomes wait_started) = Waiting \<and>
     POLL_INTERVAL_SECS = 10 \<and> TIMEOUT_SECS = 1800 \<and>
     rg_invoked (startFlow_resume AwaitCommit (VCommit tx nr) r) =
       rg_invoked r @ [Wait_for_block_increase 1 POLL_INTERVAL_SECS TIMEOUT_SECS] \<and>
     rg_invoked (startFlow_resume AwaitRegister (VString tx) r) =
       rg_invoked r @ [Wait_for_block_increase 1 POLL_INTERVAL_SECS TIMEOUT_SECS] \<and>
     rg_invoked (startFlow_resume AwaitFinalizeBlock (VBool True) r) =
       rg_invoked r @ [Wait_for_identity_ready (fullId r) POLL_INTERVAL_SECS TIMEOUT_SECS] \<and>
     rg_phase (startFlow_resume AwaitCommitBlock (VBool False) r) = PhaseError \<and>
     rg_errorMsg (startFlow_resume AwaitCommitBlock (VBool False) r) =
       Some ''Commit transaction not confirmed in time.'' \<and>
     rg_invoked (startFlow_resume AwaitCommitBlock (VBool False) r) = rg_invoked r \<and>
     rg_phase (startFlow_resume AwaitFinalizeBlock (VBool False) r) = PhaseError \<and>
     rg_errorMsg (startFlow_resume AwaitFinalizeBlock (VBool False) r) =
       Some ''Finalize transaction not confirmed in time.'' \<and>
     rg_invoked (startFlow_resume AwaitFinalizeBlock (VBool False) r) = rg_invoked r \<and>
     rg_phase (startFlow_resume AwaitIdentityReady (VBool False) r) = PhaseError \<and>
     rg_invoked (startFlow_resume AwaitIdentityReady (VBool False) r) = rg_invoked r \<and>
     cv_liveTimers (conv_run es s) = cv_liveTimers s \<and>
     cv_pollingInterval (conv_run es s) = cv_pollingInterval s \<and>
     cv_conversionError (conv_run es s) = cv_conversionError s \<and>
     cv_error (conv_run es s) = cv_error s \<and>
     cv_conversionStarted (conv_run es s) = cv_conversionStarted s \<and>
     cv_converting (conv_run es s) = cv_converting s \<and>
     (map_of (cv_liveTimers s) h = Some PollLoop \<longrightarrow>
        cv_invoked (conv_step (IntervalFires h) (conv_run es s)) =
          cv_invoked (conv_run es s) @
            [Get_address_currency_balance (cv_selectedDestinationAddress (conv_run es s))
               (cv_targetCurrency (conv_run es s))])"
proof -
  note w = wait_bounded [OF assms(1) assms(3), of timeoutMs]
  have u: "wt_phase (wait_run intervalMs None outcomes wait_started) = Waiting"
    using wait_unbounded [OF assms(3), of wait_started intervalMs]
    by (simp add: wait_started_def)
  have k: "POLL_INTERVAL_SECS = 10 \<and> TIMEOUT_SECS = 1800"
    by (simp add: POLL_INTERVAL_SECS_def TIMEOUT_SECS_def)
  note c = not_ready_run [OF assms(4)]
  have p: "cv_invoked (conv_step (IntervalFires h) (conv_run es s)) =
          cv_invoked (conv_run es s) @
            [Get_address_currency_balance (cv_selectedDestinationAddress (conv_run es s))
               (cv_targetCurrency (conv_run es s))]"
    if "map_of (cv_liveTimers s) h = Some PollLoop"
  proof -
    from c that have "map_of (cv_liveTimers (conv_run es s)) h = Some PollLoop" by simp
    then show ?thesis by (rule poll_fires)
  qed
  from w u k c p wait_call_sites wait_timed_out
  show ?thesis by blast
qed


theorem C4_timeout_witness:
  "(0::nat) < 10000 \<and> (0::nat) < 1800000 \<and>
   list_all (\<lambda>out. out \<noteq> Ready) (replicate 181 NotReady) \<and>
   list_all (\<lambda>out. out \<noteq> Ready) (replicate 180 TransientError) \<and>
   list_all (not_ready (cv_baselineBalance conversion_polling)) never_ready_inputs \<and>
   wt_phase (wait_run 10000 (Some 1800000) (replicate 180 TransientError) wait_started) = Waiting \<and>
   wt_phase (wait_run 10000 (Some 1800000) (replicate 181 NotReady) wait_started) = Failed \<and>
   wt_invocations (wait_run 10000 (Some 1800000) (replicate 181 NotReady) wait_started) = 181 \<and>
   1800000 < wt_elapsedMs (wait_run 10000 (Some 1800000) (replicate 181 NotReady) wait_started) \<and>
   wt_elapsedMs (wait_run 10000 (Some 1800000) (replicate 181 NotReady) wait_started) \<le> 1810000 \<and>
   map_of (cv_liveTimers conversion_polling) 2 = Some PollLoop \<and>
   cv_liveTimers (conv_run never_ready_inputs conversion_polling) =
     [(1, ElapsedClock), (2, PollLoop)] \<and>
   cv_conversionError (conv_run never_ready_inputs conversion_polling) = None"
proof -
  have h1: "(0::nat) < 10000" and h2: "(0::nat) < 1800000" by simp_all
  have h3: "list_all (\<lambda>out. out \<noteq> Ready) (replicate 181 NotReady)"
    and h4: "list_all (\<lambda>out. out \<noteq> Ready) (replicate 180 TransientError)"
    by (simp_all add: list_all_iff)
  have h5: "list_all (not_ready (cv_baselineBalance conversion_polling)) never_ready_inputs"
    by code_simp
  have h6: "map_of (cv_liveTimers conversion_polling) 2 = Some PollLoop" by code_simp
  have v1: "cv_liveTimers conversion_polling = [(1, ElapsedClock), (2, PollLoop)]" by code_simp
  have v2: "cv_conversionError conversion_polling = None" by code_simp
  have d: "(1800000::nat) div 10000 = 180" by simp
  note A = C4_timeout [OF h1 h2 h3 h5]
  note B = C4_timeout [OF h1 h2 h4 h5]
  from B d have c1:
    "wt_phase (wait_run 10000 (Some 1800000) (replicate 180 TransientError) wait_started) = Waiting"
    by simp
  from A d have c2:
    "wt_phase (wait_run 10000 (Some 1800000) (replicate 181 NotReady) wait_started) = Failed"
    and c3: "wt_invocations (wait_run 10000 (Some 1800000) (replicate 181 NotReady) wait_started) = 181"
    and c4: "1800000 < wt_elapsedMs (wait_run 10000 (Some 1800000) (replicate 181 NotReady) wait_started)"
    and c5: "wt_elapsedMs (wait_run 10000 (Some 1800000) (replicate 181 NotReady) wait_started) \<le> 1810000"
    by simp_all
  from A have "cv_liveTimers (conv_run never_ready_inputs conversion_polling) =
      cv_liveTimers conversion_polling" by blast
  then have c6: "cv_liveTimers (conv_run never_ready_inputs conversion_polling) =
     [(1, ElapsedClock), (2, PollLoop)]" using v1 by (rule trans)
  from A have "cv_conversionError (conv_run never_ready_inputs conversion_polling) =
      cv_conversionError conversion_polling" by blast
  then have c7: "cv_conversionError (conv_run never_ready_inputs conversion_polling) = None"
    using v2 by (rule trans)
  from h1 h2 h3 h4 h5 h6 c1 c2 c3 c4 c5 c6 c7 show ?thesis by blast
qed

subsection \<open>One poll loop at a time\<close>

text \<open>
  C5, at that run: two poll intervals are live at once. The component points to the
  second only, so nothing can clear the first: it is still live after a completion and
  after the teardown, and keeps requesting the balance.
\<close>

theorem C5_two_poll_intervals:
  "cv_liveTimers (conv_run two_starts conversion_mounted) =
     [(2, PollLoop), (3, ElapsedClock), (4, PollLoop)] \<and>
   timers_of_kind PollLoop (cv_liveTimers (conv_run two_starts conversion_mounted)) = [2, 4] \<and>
   cv_pollingInterval (conv_run two_starts conversion_mounted) = Some 4 \<and>
   cv_liveTimers (conv_run (two_starts @ [IntervalFires 4, PollResolved 11])
     conversion_mounted) = [(2, PollLoop)] \<and>
   cv_liveTimers (conv_run (two_starts @ [Destroy]) conversion_mounted) = [(2, PollLoop)] \<and>
   cv_invoked (conv_run (two_starts @ [Destroy, IntervalFires 2]) conversion_mounted) =
     cv_invoked (conv_run (two_starts @ [Destroy]) conversion_mounted) @
       [Get_address_currency_balance ''RAddr1'' ''VRSC'']"
  by code_simp


subsection \<open>The elapsed-time interval is unique\<close>

text \<open>
  In every run of either component at most one elapsed-time interval is live:
  \<open>startTimer\<close> clears the interval \<open>timerInterval\<close> points to before it creates
  the next one.
\<close>

lemma clock_inv_clear:
  assumes "clock_inv n live h"
  shows "clock_inv n (clearIfSet a live) h"
  using assms
  by (auto simp: clock_inv_def clearIfSet_def clearInterval_live_def list_all_iff
      distinct_map_filter split: option.splits)

lemma clock_inv_clear_own:
  assumes "clock_inv n live h"
  shows "clock_inv n (clearIfSet h live) h'"
  using assms
  by (auto simp: clock_inv_def clearIfSet_def clearInterval_live_def list_all_iff
      distinct_map_filter split: option.splits)

lemma clock_inv_new_clock:
  assumes "clock_inv n live h"
  shows "clock_inv (Suc n) (setInterval_live n ElapsedClock (clearIfSet h live)) (Some n)"
proof -
  from clock_inv_clear_own [OF assms, of "Some n"]
  show ?thesis
    by (auto simp: clock_inv_def setInterval_live_def list_all_iff)
qed

lemma clock_inv_new_poll:
  assumes "clock_inv n live h"
  shows "clock_inv (Suc n) (setInterval_live n PollLoop live) h"
  using assms by (auto simp: clock_inv_def setInterval_live_def list_all_iff)

lemma clock_inv_at_most_one:
  assumes "clock_inv n live h"
  shows "length (timers_of_kind ElapsedClock live) \<le> 1"
proof -
  have d: "distinct (timers_of_kind ElapsedClock live)"
    using assms by (simp add: clock_inv_def timers_of_kind_def distinct_map_filter)
  have "set (timers_of_kind ElapsedClock live) \<subseteq> set_option h"
    using assms by (auto simp: clock_inv_def timers_of_kind_def list_all_iff)
  then have "card (set (timers_of_kind ElapsedClock live)) \<le> card (set_option h)"
    by (intro card_mono) simp_all
  also have "\<dots> \<le> 1" by (cases h) simp_all
  finally show ?thesis using d by (simp add: distinct_card)
qed


lemma stopTimer_inv: "conv_clock_inv s \<Longrightarrow> conv_clock_inv (stopTimer s)"
  using clock_inv_clear_own [of "cv_nextTimerId s" "cv_liveTimers s" "cv_timerInterval s" None]
  by (simp add: conv_clock_inv_def stopTimer_def)

lemma startTimer_inv: "conv_clock_inv s \<Longrightarrow> conv_clock_inv (startTimer s)"
  using clock_inv_new_clock [of "cv_nextTimerId s" "cv_liveTimers s" "cv_timerInterval s"]
  by (simp add: conv_clock_inv_def startTimer_def Let_def)

lemma startPolling_inv: "conv_clock_inv s \<Longrightarrow> conv_clock_inv (startPolling s)"
  using clock_inv_new_poll [of "cv_nextTimerId s" "cv_liveTimers s" "cv_timerInterval s"]
  by (simp add: conv_clock_inv_def startPolling_def Let_def)

lemma clearPolling_inv:
  "conv_clock_inv s \<Longrightarrow>
     conv_clock_inv (s\<lparr> cv_liveTimers := clearIfSet (cv_pollingInterval s) (cv_liveTimers s),
                         cv_pollingInterval := p \<rparr>)"
  using clock_inv_clear [of "cv_nextTimerId s" "cv_liveTimers s" "cv_timerInterval s"
      "cv_pollingInterval s"]
  by (simp add: conv_clock_inv_def)

lemma conv_clock_inv_frame:
  assumes "cv_nextTimerId s' = cv_nextTimerId s" and "cv_liveTimers s' = cv_liveTimers s"
    and "cv_timerInterval s' = cv_timerInterval s"
  shows "conv_clock_inv s' = conv_clock_inv s"
  using assms by (simp add: conv_clock_inv_def)

lemma completeConversion_inv: "conv_clock_inv s \<Longrightarrow> conv_clock_inv (completeConversion n s)"
proof -
  assume a: "conv_clock_inv s"
  define s1 where "s1 = (if truthy_handle (cv_pollingInterval s)
                then s\<lparr> cv_liveTimers := clearIfSet (cv_pollingInterval s) (cv_liveTimers s),
                        cv_pollingInterval := None \<rparr>
                else s)"
  have "conv_clock_inv s1" using a clearPolling_inv [OF a, of None] by (simp add: s1_def)
  then have "conv_clock_inv (stopTimer s1)" by (rule stopTimer_inv)
  moreover have "conv_clock_inv (completeConversion n s) = conv_clock_inv (stopTimer s1)"
    by (rule conv_clock_inv_frame) (simp_all add: completeConversion_def Let_def s1_def)
  ultimately show ?thesis by simp
qed

lemma retryConversion_inv: "conv_clock_inv s \<Longrightarrow> conv_clock_inv (retryConversion s)"
proof -
  assume a: "conv_clock_inv s"
  define s0 where "s0 = s\<lparr> cv_conversionError := None, cv_conversionTxid := None,
      cv_conversionStarted := False, cv_converting := False, cv_conversionCompleted := False,
      cv_actualAmountReceived := 0 \<rparr>"
  define s1 where "s1 = (if truthy_handle (cv_pollingInterval s0)
                then s0\<lparr> cv_liveTimers := clearIfSet (cv_pollingInterval s0) (cv_liveTimers s0),
                         cv_pollingInterval := None \<rparr>
                else s0)"
  have "conv_clock_inv s0" using a by (simp add: conv_clock_inv_def s0_def)
  then have "conv_clock_inv s1" using clearPolling_inv [of s0 None] by (simp add: s1_def)
  then have "conv_clock_inv (stopTimer s1)" by (rule stopTimer_inv)
  moreover have "conv_clock_inv (retryConversion s) = conv_clock_inv (stopTimer s1)"
    by (rule conv_clock_inv_frame)
       (simp_all add: retryConversion_def Let_def s1_def s0_def initialize_def)
  ultimately show ?thesis by simp
qed

lemma onDestroy_inv: "conv_clock_inv s \<Longrightarrow> conv_clock_inv (onDestroy s)"
  using clock_inv_clear [OF clock_inv_clear, of "cv_nextTimerId s" "cv_liveTimers s"
      "cv_timerInterval s" "cv_timerInterval s" "cv_pollingInterval s"]
  by (simp add: conv_clock_inv_def onDestroy_def Let_def)

lemma startConversion_sent_inv:
  "conv_clock_inv s \<Longrightarrow> conv_clock_inv (startConversion_sent txid s)"
proof -
  assume "conv_clock_inv s"
  then have "conv_clock_inv (s\<lparr> cv_conversionTxid := Some txid, cv_conversionStarted := True,
           cv_startsAwaitingSend := cv_startsAwaitingSend s - 1 \<rparr>)"
    by (simp add: conv_clock_inv_def)
  then show ?thesis
    unfolding startConversion_sent_def by (intro startPolling_inv startTimer_inv)
qed

lemma conv_clock_inv_step:
  assumes "conv_clock_inv s"
  shows "conv_clock_inv (conv_step e s)"
proof (cases e)
  case (PollResolved b)
  have "conv_clock_inv (s\<lparr> cv_pollsInFlight := cv_pollsInFlight s - 1 \<rparr>)"
    using assms by (simp add: conv_clock_inv_def)
  with assms PollResolved show ?thesis
    by (simp add: pollResolved_def Let_def completeConversion_inv)
next
  case ClickStart
  with assms onDestroy_inv [OF assms] show ?thesis
    by (simp add: conv_clock_inv_def startConversion_def)
next
  case ClickRetry
  with assms retryConversion_inv [OF assms] show ?thesis by simp
next
  case (SendResolved txid)
  with assms startConversion_sent_inv [OF assms] show ?thesis by simp
next
  case Destroy
  with onDestroy_inv [OF assms] show ?thesis by simp
next
  case (InitializeSettled t a)
  with assms show ?thesis
    by (simp add: conv_clock_inv_def initializeSettled_timers)
qed (use assms in \<open>simp_all add: conv_clock_inv_def handleSourceAddressChange_def
      handleDestinationAddressChange_def startConversion_baseline_def startConversion_catch_def
      pollTick_def clockTick_def pollRejected_def Let_def
      split: option.splits timer_kind.splits list.splits\<close>)

lemma conv_clock_inv_run: "conv_clock_inv s \<Longrightarrow> conv_clock_inv (conv_run es s)"
  by (induction es arbitrary: s) (simp_all add: conv_clock_inv_step)

lemma conv_clock_inv_created: "conv_clock_inv (initialize (conversion_created a b c))"
  by (simp add: conv_clock_inv_def clock_inv_def initialize_def conversion_created_def Let_def)

lemma elapsed_clock_unique:
  "length (timers_of_kind ElapsedClock
     (cv_liveTimers (conv_run es (initialize (conversion_created a b c))))) \<le> 1"
  using conv_clock_inv_run [OF conv_clock_inv_created, of es a b c]
  unfolding conv_clock_inv_def by (rule clock_inv_at_most_one)


lemma reg_stopTimer_inv: "reg_clock_inv r \<Longrightarrow> reg_clock_inv (reg_stopTimer r)"
  using clock_inv_clear_own [of "rg_nextTimerId r" "rg_liveTimers r" "rg_timerInterval r" None]
  by (simp add: reg_clock_inv_def reg_stopTimer_def)

lemma reg_startTimer_inv: "reg_clock_inv r \<Longrightarrow> reg_clock_inv (reg_startTimer r)"
  using clock_inv_new_clock [of "rg_nextTimerId r" "rg_liveTimers r" "rg_timerInterval r"]
  by (simp add: reg_clock_inv_def reg_startTimer_def Let_def)

lemma reg_clock_inv_frame:
  assumes "rg_nextTimerId r' = rg_nextTimerId r" and "rg_liveTimers r' = rg_liveTimers r"
    and "rg_timerInterval r' = rg_timerInterval r"
  shows "reg_clock_inv r' = reg_clock_inv r"
  using assms by (simp add: reg_clock_inv_def)

lemma startFlow_catch_inv: "reg_clock_inv r \<Longrightarrow> reg_clock_inv (startFlow_catch msg r)"
proof -
  assume "reg_clock_inv r"
  then have "reg_clock_inv (reg_stopTimer r)" by (rule reg_stopTimer_inv)
  moreover have "reg_clock_inv (startFlow_catch msg r) = reg_clock_inv (reg_stopTimer r)"
    by (rule reg_clock_inv_frame) (simp_all add: startFlow_catch_def Let_def)
  ultimately show ?thesis by simp
qed

lemma startFlow_resume_inv:
  assumes "reg_clock_inv r"
  shows "reg_clock_inv (startFlow_resume w v r)"
proof (cases "(w, v, r)" rule: startFlow_resume.cases)
  case (2 txid namereservation s)
  have "reg_clock_inv (r\<lparr> rg_commitTxid := txid, rg_namereservation := namereservation,
      rg_phase := WaitingCommit \<rparr>)"
    using assms by (simp add: reg_clock_inv_def)
  from reg_startTimer_inv [OF this] 2 show ?thesis
    by (simp add: Let_def reg_clock_inv_def)
next
  case (3 commitOk s)
  from reg_stopTimer_inv [OF assms] startFlow_catch_inv [OF reg_stopTimer_inv [OF assms]] 3
  show ?thesis by (simp add: Let_def reg_clock_inv_def)
next
  case (5 txid s)
  have "reg_clock_inv (r\<lparr> rg_finalizeTxid := txid, rg_phase := WaitingFinalize \<rparr>)"
    using assms by (simp add: reg_clock_inv_def)
  from reg_startTimer_inv [OF this] 5 show ?thesis
    by (simp add: Let_def reg_clock_inv_def)
next
  case (6 finOk s)
  from reg_stopTimer_inv [OF assms] startFlow_catch_inv [OF reg_stopTimer_inv [OF assms]] 6
  show ?thesis by (simp add: Let_def reg_clock_inv_def)
next
  case (7 identityReady s)
  from assms startFlow_catch_inv [OF assms] 7
  show ?thesis by (simp add: Let_def reg_clock_inv_def)
qed (use assms in \<open>simp_all add: reg_clock_inv_def Let_def\<close>)

lemma reg_clock_inv_step:
  assumes "reg_clock_inv r"
  shows "reg_clock_inv (reg_step e r)"
proof (cases e)
  case (Resolved v)
  with startFlow_resume_inv [OF assms] show ?thesis by simp
next
  case (Rejected x)
  with assms startFlow_catch_inv [OF assms] show ?thesis by simp
next
  case Unmount
  with clock_inv_clear [of "rg_nextTimerId r" "rg_liveTimers r" "rg_timerInterval r"
      "rg_timerInterval r"] assms
  show ?thesis by (simp add: reg_clock_inv_def reg_unmount_def)
qed (use assms in \<open>simp_all add: reg_clock_inv_def startFlow_def reg_clockTick_def
      split: option.splits\<close>)

lemma reg_clock_inv_run: "reg_clock_inv r \<Longrightarrow> reg_clock_inv (reg_run es r)"
  by (induction es arbitrary: r) (simp_all add: reg_clock_inv_step)

lemma reg_clock_inv_mounted: "reg_clock_inv (onMount (register_created a b c))"
  by (simp add: reg_clock_inv_def clock_inv_def onMount_def startFlow_def register_created_def)

lemma registration_timer_unique:
  "length (timers_of_kind ElapsedClock
     (rg_liveTimers (reg_run es (onMount (register_created a b c))))) \<le> 1"
  using reg_clock_inv_run [OF reg_clock_inv_mounted, of es a b c]
  unfolding reg_clock_inv_def by (rule clock_inv_at_most_one)

end
